theory Spec2Isabelle
  imports Main "HOL-Library.AList" "HOL-Library.Sublist" "HOL-Library.Multiset"
begin

section \<open>Library Manager: the catalog store of \<open>main.py\<close>\<close>

text \<open>
  A shallow embedding of the classes \<open>Book\<close>, \<open>User\<close>, \<open>Transaction\<close> and \<open>Library\<close>.

  \<^item> A Python \<open>dict\<close> keeps its keys in insertion order, and the report depends on that
    order, so a dict is an association list: \<open>map_of d k\<close> is the lookup (\<open>None\<close> when
    \<open>k not in d\<close>), \<open>AList.update k v d\<close> is \<open>d[k] = v\<close> (the value is replaced in place when
    the key is present, the pair is appended otherwise), \<open>AList.delete k d\<close> is \<open>del d[k]\<close>,
    \<open>map snd d\<close> is \<open>d.values()\<close>.
  \<^item> Methods mutate \<open>self\<close>; here they take the \<open>Library\<close> and return the new one.
  \<^item> What a method reads from outside (the clock of \<open>datetime.utcnow()\<close>, the identifier
    of \<open>uuid.uuid4()\<close>, the files) is an argument.
  \<^item> An exception is a value \<open>Inl e\<close> of a sum type.
\<close>

subsection \<open>Exceptions\<close>

datatype error =
    KeyError | TypeError | AttributeError | ValueError | OverflowError | JSONDecodeError | OSError
  | IllTyped
    \<comment> \<open>not a Python exception: a loaded document puts a value of another type where the
        classes keep a string or an integer; Python stores it unchecked, the typed records
        below cannot hold it\<close>

subsection \<open>Calendar dates (\<open>datetime.date\<close>, \<open>datetime.datetime\<close>, \<open>timedelta(days=n)\<close>)\<close>

text \<open>
  \<open>datetime\<close> is a subclass of \<open>date\<close>; the record extension says the same, and
  \<open>date.truncate\<close> is the method \<open>.date()\<close>. Both classes only hold proleptic Gregorian
  dates with \<open>1 \<le> year \<le> 9999\<close>.
\<close>

record date =
  year :: nat
  month :: nat
  day :: nat

record datetime = date +
  hour :: nat
  minute :: nat
  second :: nat
  microsecond :: nat

definition MAXYEAR :: nat where
  "MAXYEAR = 9999"

definition is_leap :: "nat \<Rightarrow> bool" where
  "is_leap y = (y mod 4 = 0 \<and> (y mod 100 \<noteq> 0 \<or> y mod 400 = 0))"

definition days_in_month :: "nat \<Rightarrow> nat \<Rightarrow> nat" where
  "days_in_month y m =
     (if m = 2 then (if is_leap y then 29 else 28)
      else if m = 4 \<or> m = 6 \<or> m = 9 \<or> m = 11 then 30 else 31)"

definition valid_date :: "'a date_scheme \<Rightarrow> bool" where
  "valid_date d =
     (1 \<le> year d \<and> year d \<le> MAXYEAR \<and> 1 \<le> month d \<and> month d \<le> 12 \<and>
      1 \<le> day d \<and> day d \<le> days_in_month (year d) (month d))"

definition next_day :: "'a date_scheme \<Rightarrow> 'a date_scheme" where
  "next_day d =
     (if day d < days_in_month (year d) (month d) then d\<lparr>day := day d + 1\<rparr>
      else if month d < 12 then d\<lparr>month := month d + 1, day := 1\<rparr>
      else d\<lparr>year := year d + 1, month := 1, day := 1\<rparr>)"

fun plus_days :: "'a date_scheme \<Rightarrow> nat \<Rightarrow> 'a date_scheme" where
  "plus_days d 0 = d"
| "plus_days d (Suc n) = plus_days (next_day d) n"

text \<open>\<open>dt + timedelta(days=n)\<close>: the same time of day \<open>n\<close> days later, and
  \<open>OverflowError\<close> when that day is after 9999-12-31.\<close>

definition add_timedelta_days :: "datetime \<Rightarrow> nat \<Rightarrow> error + datetime" where
  "add_timedelta_days dt n =
     (let r = plus_days dt n in if year r > MAXYEAR then Inl OverflowError else Inr r)"

text \<open>The comparison \<open><\<close> of two \<open>date\<close> objects.\<close>

definition date_less :: "date \<Rightarrow> date \<Rightarrow> bool" where
  "date_less a b =
     (year a < year b \<or> (year a = year b \<and>
        (month a < month b \<or> (month a = month b \<and> day a < day b))))"

text \<open>\<open>isoformat()\<close>: \<open>"%04d-%02d-%02d"\<close> for a date, and
  \<open>"%04d-%02d-%02dT%02d:%02d:%02d"\<close> followed by \<open>".%06d"\<close> when the microsecond is not
  zero for a datetime. The fields are in the range of the two classes, so each has at
  most as many digits as its width.\<close>

definition digit :: "nat \<Rightarrow> char" where
  "digit n = ''0123456789'' ! (n mod 10)"

definition pad2 :: "nat \<Rightarrow> string" where
  "pad2 n = [digit (n div 10), digit n]"

definition pad4 :: "nat \<Rightarrow> string" where
  "pad4 n = [digit (n div 1000), digit (n div 100), digit (n div 10), digit n]"

definition pad6 :: "nat \<Rightarrow> string" where
  "pad6 n = [digit (n div 100000), digit (n div 10000), digit (n div 1000),
             digit (n div 100), digit (n div 10), digit n]"

definition date_isoformat :: "date \<Rightarrow> string" where
  "date_isoformat d = pad4 (year d) @ ''-'' @ pad2 (month d) @ ''-'' @ pad2 (day d)"

definition datetime_isoformat :: "datetime \<Rightarrow> string" where
  "datetime_isoformat dt =
     date_isoformat (date.truncate dt) @ ''T'' @
     pad2 (hour dt) @ '':'' @ pad2 (minute dt) @ '':'' @ pad2 (second dt) @
     (if microsecond dt \<noteq> 0 then ''.'' @ pad6 (microsecond dt) else [])"

text \<open>\<open>toordinal()\<close>: the number of the day, 0001-01-01 being day 1.\<close>

definition days_before_year :: "nat \<Rightarrow> nat" where
  "days_before_year y = (let p = y - 1 in p * 365 + p div 4 - p div 100 + p div 400)"

fun days_before_month :: "nat \<Rightarrow> nat \<Rightarrow> nat" where
  "days_before_month y 0 = 0"
| "days_before_month y (Suc m) =
     (if m = 0 then 0 else days_before_month y m + days_in_month y m)"

definition toordinal :: "'a date_scheme \<Rightarrow> nat" where
  "toordinal d = days_before_year (year d) + days_before_month (year d) (month d) + day d"

text \<open>The reading of the ten characters \<open>YYYY-MM-DD\<close> of a date of the calendar, at
  midnight, as \<open>datetime.fromisoformat\<close> and \<open>datetime.strptime\<close> with \<open>"%Y-%m-%d"\<close>
  read them. It says what the ISO form of a date is, and it is the parser of the
  examples.\<close>

definition digit_value :: "char \<Rightarrow> nat option" where
  "digit_value c =
     (let n = (of_char c :: nat) in if 48 \<le> n \<and> n \<le> 57 then Some (n - 48) else None)"

fun number_value :: "string \<Rightarrow> nat \<Rightarrow> nat option" where
  "number_value [] acc = Some acc"
| "number_value (c # cs) acc =
     (case digit_value c of None \<Rightarrow> None | Some n \<Rightarrow> number_value cs (10 * acc + n))"

definition parse_ymd :: "string \<Rightarrow> datetime option" where
  "parse_ymd s =
     (if length s = 10 \<and> s ! 4 = CHR ''-'' \<and> s ! 7 = CHR ''-'' then
        (case (number_value (take 4 s) 0, number_value (take 2 (drop 5 s)) 0,
               number_value (drop 8 s) 0) of
           (Some y, Some m, Some d) \<Rightarrow>
             (let dt = \<lparr>year = y, month = m, day = d,
                        hour = 0, minute = 0, second = 0, microsecond = 0\<rparr>
              in if valid_date dt then Some dt else None)
         | _ \<Rightarrow> None)
      else None)"

subsection \<open>The classes\<close>

record Book =
  title :: string
  author :: string
  genre :: string
  quantity :: int
  issued_count :: int

record User =
  id' :: string
  name :: string
  contact :: string
  borrowed :: "(string \<times> string) list"  \<comment> \<open>title -> due date (ISO)\<close>

record Transaction =
  user_id :: string
  book_title :: string
  action :: string
  date :: string

record Library =
  books :: "(string \<times> Book) list"  \<comment> \<open>title -> Book\<close>
  users :: "(string \<times> User) list"  \<comment> \<open>id -> User\<close>
  transactions :: "Transaction list"

text \<open>The constructors \<open>__init__\<close>. \<open>User\<close> takes the string of \<open>uuid.uuid4()\<close>,
  \<open>Transaction\<close> the reading of the clock that it uses when it is given no date or an
  empty one (\<open>date or datetime.utcnow().isoformat()\<close>).\<close>

definition Book_init :: "string \<Rightarrow> string \<Rightarrow> string \<Rightarrow> int \<Rightarrow> Book" where
  "Book_init ttl auth gen qty =
     \<lparr>title = ttl, author = auth, genre = gen, quantity = qty, issued_count = 0\<rparr>"

definition User_init :: "string \<Rightarrow> string \<Rightarrow> string \<Rightarrow> User" where
  "User_init uuid4 nm con = \<lparr>id' = uuid4, name = nm, contact = con, borrowed = []\<rparr>"

definition Transaction_init ::
  "datetime \<Rightarrow> string \<Rightarrow> string \<Rightarrow> string \<Rightarrow> string option \<Rightarrow> Transaction" where
  "Transaction_init utcnow uid ttl act dt =
     \<lparr>user_id = uid, book_title = ttl, action = act,
      date = (case dt of None \<Rightarrow> datetime_isoformat utcnow
              | Some s \<Rightarrow> if s = [] then datetime_isoformat utcnow else s)\<rparr>"

definition Library_init :: Library where
  "Library_init = \<lparr>books = [], users = [], transactions = []\<rparr>"

subsection \<open>The operations on the catalog\<close>

definition add_book :: "Library \<Rightarrow> string \<Rightarrow> string \<Rightarrow> string \<Rightarrow> int \<Rightarrow> Library" where
  "add_book lib ttl auth gen qty =
     (case map_of (books lib) ttl of
        Some b \<Rightarrow> lib\<lparr>books := AList.update ttl (b\<lparr>quantity := quantity b + qty\<rparr>) (books lib)\<rparr>
      | None \<Rightarrow> lib\<lparr>books := AList.update ttl (Book_init ttl auth gen qty) (books lib)\<rparr>)"

definition remove_book :: "Library \<Rightarrow> string \<Rightarrow> Library \<times> bool" where
  "remove_book lib ttl =
     (case map_of (books lib) ttl of
        Some b \<Rightarrow> (lib\<lparr>books := AList.delete ttl (books lib)\<rparr>, True)
      | None \<Rightarrow> (lib, False))"

definition add_user :: "string \<Rightarrow> Library \<Rightarrow> string \<Rightarrow> string \<Rightarrow> Library \<times> string" where
  "add_user uuid4 lib nm con =
     (let u = User_init uuid4 nm con
      in (lib\<lparr>users := AList.update (id' u) u (users lib)\<rparr>, id' u))"

definition remove_user :: "Library \<Rightarrow> string \<Rightarrow> Library \<times> bool" where
  "remove_user lib uid =
     (case map_of (users lib) uid of
        Some u \<Rightarrow> (lib\<lparr>users := AList.delete uid (users lib)\<rparr>, True)
      | None \<Rightarrow> (lib, False))"

text \<open>\<open>issue_book\<close> reads the clock twice: \<open>utcnow\<close> for the due date and \<open>utcnow2\<close> in
  the constructor of the transaction. The only exception it can raise comes from the
  addition of the fourteen days, before anything is assigned, so \<open>Inl\<close> carries no
  store: it is the one of the call.\<close>

definition issue_book ::
  "datetime \<Rightarrow> datetime \<Rightarrow> Library \<Rightarrow> string \<Rightarrow> string \<Rightarrow> error + (Library \<times> bool \<times> string)" where
  "issue_book utcnow utcnow2 lib uid ttl =
     (case map_of (users lib) uid of
        None \<Rightarrow> Inr (lib, False, ''User not found'')
      | Some user \<Rightarrow>
          (case map_of (books lib) ttl of
             None \<Rightarrow> Inr (lib, False, ''Book not found'')
           | Some book \<Rightarrow>
               if quantity book \<le> 0 then Inr (lib, False, ''No copies available'')
               else
                 (case add_timedelta_days utcnow 14 of
                    Inl e \<Rightarrow> Inl e
                  | Inr later \<Rightarrow>
                      let due = date_isoformat (date.truncate later);
                          user' = user\<lparr>borrowed := AList.update ttl due (borrowed user)\<rparr>;
                          book' = book\<lparr>quantity := quantity book - 1,
                                       issued_count := issued_count book + 1\<rparr>;
                          t = Transaction_init utcnow2 uid ttl ''issue'' None
                      in Inr (lib\<lparr>books := AList.update ttl book' (books lib),
                                  users := AList.update uid user' (users lib),
                                  transactions := transactions lib @ [t]\<rparr>,
                              True, ''Issued. Due: '' @ due))))"

definition return_book ::
  "datetime \<Rightarrow> Library \<Rightarrow> string \<Rightarrow> string \<Rightarrow> Library \<times> bool \<times> string" where
  "return_book utcnow lib uid ttl =
     (case map_of (users lib) uid of
        None \<Rightarrow> (lib, False, ''User not found'')
      | Some user \<Rightarrow>
          (case map_of (borrowed user) ttl of
             None \<Rightarrow> (lib, False, ''User did not borrow this book'')
           | Some due \<Rightarrow>
               let user' = user\<lparr>borrowed := AList.delete ttl (borrowed user)\<rparr>;
                   books' = (case map_of (books lib) ttl of
                               Some b \<Rightarrow> AList.update ttl (b\<lparr>quantity := quantity b + 1\<rparr>) (books lib)
                             | None \<Rightarrow>
                                 AList.update ttl (Book_init ttl ''Unknown'' ''Unknown'' 1) (books lib));
                   t = Transaction_init utcnow uid ttl ''return'' None
               in (lib\<lparr>books := books',
                       users := AList.update uid user' (users lib),
                       transactions := transactions lib @ [t]\<rparr>,
                   True, ''Returned'')))"

subsection \<open>Dictionaries handed out: \<open>to_dict\<close> and the values of the \<open>json\<close> module\<close>

text \<open>
  \<open>to_dict\<close> builds a dict from strings to values of several types, and \<open>json.load\<close>
  returns such values; \<open>json\<close> is the type of both (\<open>None\<close>, booleans, integers,
  strings, lists, dicts with string keys in insertion order; no other number occurs in
  what \<open>save_to_file\<close> writes).
\<close>

datatype json =
    JNull | JBool bool | JInt int | JStr string | JArr "json list" | JObj "(string \<times> json) list"

definition Book_to_dict :: "Book \<Rightarrow> json" where
  "Book_to_dict b =
     JObj [(''title'', JStr (title b)), (''author'', JStr (author b)), (''genre'', JStr (genre b)),
           (''quantity'', JInt (quantity b)), (''issued_count'', JInt (issued_count b))]"

definition User_to_dict :: "User \<Rightarrow> json" where
  "User_to_dict u =
     JObj [(''id'', JStr (id' u)), (''name'', JStr (name u)), (''contact'', JStr (contact u)),
           (''borrowed'', JObj (map (\<lambda>(ttl, due). (ttl, JStr due)) (borrowed u)))]"

definition Transaction_to_dict :: "Transaction \<Rightarrow> json" where
  "Transaction_to_dict t =
     JObj [(''user_id'', JStr (user_id t)), (''book_title'', JStr (book_title t)),
           (''action'', JStr (action t)), (''date'', JStr (date t))]"

subsection \<open>\<open>generate_report\<close>\<close>

record Report =
  total_books :: int
  unique_titles :: nat
  total_users :: nat
  popular :: "json list"
  overdue :: "json list"

text \<open>The builtin \<open>sorted(xs, key=..., reverse=...)\<close>. It is stable; with
  \<open>reverse=True\<close> CPython reverses the list, sorts it and reverses the result, which
  keeps elements of equal key in their original order.\<close>

definition sorted_builtin :: "('a \<Rightarrow> int) \<Rightarrow> bool \<Rightarrow> 'a list \<Rightarrow> 'a list" where
  "sorted_builtin key reverse xs =
     (if reverse then rev (sort_key key (rev xs)) else sort_key key xs)"

text \<open>
  The two parsers of the standard library are arguments: \<open>fromisoformat s\<close> is
  \<open>datetime.fromisoformat(s)\<close> and \<open>strptime s fmt\<close> is \<open>datetime.strptime(s, fmt)\<close>,
  \<open>None\<close> when the call raises. \<open>due_date_of\<close> is the \<open>try\<close> statement of the loop: the
  first parser, on any exception the second, whose exception nobody catches.
\<close>

definition due_date_of ::
  "(string \<Rightarrow> datetime option) \<Rightarrow> (string \<Rightarrow> string \<Rightarrow> datetime option) \<Rightarrow> string \<Rightarrow> error + date" where
  "due_date_of fromisoformat strptime due =
     (case fromisoformat due of
        Some dt \<Rightarrow> Inr (date.truncate dt)
      | None \<Rightarrow>
          (case strptime due ''%Y-%m-%d'' of
             Some dt \<Rightarrow> Inr (date.truncate dt)
           | None \<Rightarrow> Inl ValueError))"

definition overdue_entry :: "User \<Rightarrow> string \<Rightarrow> string \<Rightarrow> json" where
  "overdue_entry u ttl due =
     JObj [(''user_id'', JStr (id' u)), (''name'', JStr (name u)),
           (''book'', JStr ttl), (''due'', JStr due)]"

text \<open>The inner loop \<open>for title, due in u.borrowed.items()\<close> and the outer loop
  \<open>for u in self.users.values()\<close>; the last argument is the list \<open>overdue\<close> built so
  far.\<close>

fun overdue_of_user ::
  "(string \<Rightarrow> datetime option) \<Rightarrow> (string \<Rightarrow> string \<Rightarrow> datetime option) \<Rightarrow> date \<Rightarrow> User \<Rightarrow>
   (string \<times> string) list \<Rightarrow> json list \<Rightarrow> error + json list" where
  "overdue_of_user fromisoformat strptime today u [] acc = Inr acc"
| "overdue_of_user fromisoformat strptime today u ((ttl, due) # items) acc =
     (case due_date_of fromisoformat strptime due of
        Inl e \<Rightarrow> Inl e
      | Inr due_date \<Rightarrow>
          overdue_of_user fromisoformat strptime today u items
            (if date_less due_date today then acc @ [overdue_entry u ttl due] else acc))"

fun overdue_of_users ::
  "(string \<Rightarrow> datetime option) \<Rightarrow> (string \<Rightarrow> string \<Rightarrow> datetime option) \<Rightarrow> date \<Rightarrow>
   User list \<Rightarrow> json list \<Rightarrow> error + json list" where
  "overdue_of_users fromisoformat strptime today [] acc = Inr acc"
| "overdue_of_users fromisoformat strptime today (u # us) acc =
     (case overdue_of_user fromisoformat strptime today u (borrowed u) acc of
        Inl e \<Rightarrow> Inl e
      | Inr acc' \<Rightarrow> overdue_of_users fromisoformat strptime today us acc')"

definition generate_report ::
  "(string \<Rightarrow> datetime option) \<Rightarrow> (string \<Rightarrow> string \<Rightarrow> datetime option) \<Rightarrow> datetime \<Rightarrow>
   Library \<Rightarrow> error + Report" where
  "generate_report fromisoformat strptime utcnow lib =
     (let popular_books = take 10 (sorted_builtin issued_count True (map snd (books lib)));
          today = date.truncate utcnow
      in case overdue_of_users fromisoformat strptime today (map snd (users lib)) [] of
           Inl e \<Rightarrow> Inl e
         | Inr od \<Rightarrow>
             Inr \<lparr>total_books = sum_list (map quantity (map snd (books lib))),
                  unique_titles = length (books lib),
                  total_users = length (users lib),
                  popular = map Book_to_dict popular_books,
                  overdue = od\<rparr>)"

text \<open>The overdue list in the words of the specification: for every user, in the order
  of the users, every entry of its \<open>borrowed\<close> map, in the order of that map, whose due
  date is before today.\<close>

definition is_overdue ::
  "(string \<Rightarrow> datetime option) \<Rightarrow> (string \<Rightarrow> string \<Rightarrow> datetime option) \<Rightarrow> date \<Rightarrow>
   string \<Rightarrow> bool" where
  "is_overdue fromisoformat strptime today due =
     (case due_date_of fromisoformat strptime due of
        Inl e \<Rightarrow> False
      | Inr due_date \<Rightarrow> date_less due_date today)"

definition overdue_spec ::
  "(string \<Rightarrow> datetime option) \<Rightarrow> (string \<Rightarrow> string \<Rightarrow> datetime option) \<Rightarrow> date \<Rightarrow>
   Library \<Rightarrow> json list" where
  "overdue_spec fromisoformat strptime today lib =
     concat (map (\<lambda>u. map (\<lambda>(ttl, due). overdue_entry u ttl due)
                          (filter (\<lambda>(ttl, due). is_overdue fromisoformat strptime today due)
                                  (borrowed u)))
                 (map snd (users lib)))"

text \<open>Every due date of the store is a string that one of the two parsers accepts.\<close>

definition due_parses ::
  "(string \<Rightarrow> datetime option) \<Rightarrow> (string \<Rightarrow> string \<Rightarrow> datetime option) \<Rightarrow> string \<Rightarrow> bool" where
  "due_parses fromisoformat strptime due =
     (fromisoformat due \<noteq> None \<or> strptime due ''%Y-%m-%d'' \<noteq> None)"

definition dues_parse ::
  "(string \<Rightarrow> datetime option) \<Rightarrow> (string \<Rightarrow> string \<Rightarrow> datetime option) \<Rightarrow> Library \<Rightarrow> bool" where
  "dues_parse fromisoformat strptime lib =
     (\<forall>u \<in> set (map snd (users lib)). \<forall>(ttl, due) \<in> set (borrowed u).
        due_parses fromisoformat strptime due)"

subsection \<open>\<open>save_to_file\<close> and \<open>load_from_file\<close>\<close>

text \<open>
  A file holds text that \<open>json.load\<close> reads as a value (\<open>Document\<close> of that value) or
  text that \<open>json.load\<close> rejects (\<open>Malformed\<close>). When \<open>json.dump\<close> completes,
  \<open>json.load\<close> gives back the value written, so the text in between is left out.
\<close>

datatype file_content = Document json | Malformed

type_synonym filesystem = "string \<Rightarrow> file_content option"

definition try_then :: "error + 'a \<Rightarrow> ('a \<Rightarrow> error + 'b) \<Rightarrow> error + 'b" where
  "try_then r f = (case r of Inl e \<Rightarrow> Inl e | Inr x \<Rightarrow> f x)"

text \<open>A comprehension over a list whose body may raise; the body is given the position
  of the element.\<close>

fun comprehension :: "(nat \<Rightarrow> 'a \<Rightarrow> error + 'b) \<Rightarrow> nat \<Rightarrow> 'a list \<Rightarrow> error + 'b list" where
  "comprehension f i [] = Inr []"
| "comprehension f i (x # xs) =
     try_then (f i x) (\<lambda>y. try_then (comprehension f (Suc i) xs) (\<lambda>ys. Inr (y # ys)))"

text \<open>\<open>d[k]\<close> and \<open>d.get(k, default)\<close> on a value that \<open>json.load\<close> returned.\<close>

fun getitem :: "json \<Rightarrow> string \<Rightarrow> error + json" where
  "getitem (JObj kvs) k = (case map_of kvs k of Some v \<Rightarrow> Inr v | None \<Rightarrow> Inl KeyError)"
| "getitem _ k = Inl TypeError"

fun dict_get :: "json \<Rightarrow> string \<Rightarrow> json \<Rightarrow> error + json" where
  "dict_get (JObj kvs) k dflt = Inr (case map_of kvs k of Some v \<Rightarrow> v | None \<Rightarrow> dflt)"
| "dict_get _ k dflt = Inl AttributeError"

text \<open>\<open>.items()\<close> of a value, and the iteration \<open>for t in v\<close>: over a dict it yields the
  keys, over a string its characters, each a string.\<close>

fun dict_items :: "json \<Rightarrow> error + (string \<times> json) list" where
  "dict_items (JObj kvs) = Inr kvs"
| "dict_items _ = Inl AttributeError"

fun iterate :: "json \<Rightarrow> error + json list" where
  "iterate (JArr xs) = Inr xs"
| "iterate (JObj kvs) = Inr (map (\<lambda>(k, v). JStr k) kvs)"
| "iterate (JStr s) = Inr (map (\<lambda>c. JStr [c]) s)"
| "iterate _ = Inl TypeError"

text \<open>Python stores whatever the document holds; the records hold strings and integers
  only, and any other value ends the run of the model with \<open>IllTyped\<close>.\<close>

fun as_str :: "json \<Rightarrow> error + string" where
  "as_str (JStr s) = Inr s"
| "as_str _ = Inl IllTyped"

fun as_int :: "json \<Rightarrow> error + int" where
  "as_int (JInt n) = Inr n"
| "as_int _ = Inl IllTyped"

fun as_str_dict :: "json \<Rightarrow> error + (string \<times> string) list" where
  "as_str_dict (JObj kvs) =
     comprehension (\<lambda>i (k, v). try_then (as_str v) (\<lambda>s. Inr (k, s))) 0 kvs"
| "as_str_dict _ = Inl IllTyped"

text \<open>The optional date of a transaction: a value that is false in a condition makes
  the constructor read the clock, as \<open>None\<close> does.\<close>

fun as_str_option :: "json \<Rightarrow> error + string option" where
  "as_str_option JNull = Inr None"
| "as_str_option (JStr s) = Inr (Some s)"
| "as_str_option (JBool b) = (if b then Inl IllTyped else Inr None)"
| "as_str_option (JInt n) = (if n = 0 then Inr None else Inl IllTyped)"
| "as_str_option (JArr xs) = (if xs = [] then Inr None else Inl IllTyped)"
| "as_str_option (JObj kvs) = (if kvs = [] then Inr None else Inl IllTyped)"

definition Book_from_dict :: "json \<Rightarrow> error + Book" where
  "Book_from_dict d =
     try_then (getitem d ''title'') (\<lambda>jt.
     try_then (getitem d ''author'') (\<lambda>ja.
     try_then (getitem d ''genre'') (\<lambda>jg.
     try_then (getitem d ''quantity'') (\<lambda>jq.
     try_then (dict_get d ''issued_count'' (JInt 0)) (\<lambda>jc.
     try_then (as_str jt) (\<lambda>ttl.
     try_then (as_str ja) (\<lambda>auth.
     try_then (as_str jg) (\<lambda>gen.
     try_then (as_int jq) (\<lambda>qty.
     try_then (as_int jc) (\<lambda>cnt.
       Inr ((Book_init ttl auth gen qty)\<lparr>issued_count := cnt\<rparr>)))))))))))"

text \<open>\<open>User.from_dict\<close> calls the constructor, which draws an identifier, and then
  assigns the identifier of the document.\<close>

definition User_from_dict :: "string \<Rightarrow> json \<Rightarrow> error + User" where
  "User_from_dict uuid4 d =
     try_then (getitem d ''name'') (\<lambda>jn.
     try_then (getitem d ''contact'') (\<lambda>jc.
     try_then (getitem d ''id'') (\<lambda>ji.
     try_then (dict_get d ''borrowed'' (JObj [])) (\<lambda>jb.
     try_then (as_str jn) (\<lambda>nm.
     try_then (as_str jc) (\<lambda>con.
     try_then (as_str ji) (\<lambda>i.
     try_then (as_str_dict jb) (\<lambda>bw.
       Inr ((User_init uuid4 nm con)\<lparr>id' := i, borrowed := bw\<rparr>)))))))))"

definition Transaction_from_dict :: "datetime \<Rightarrow> json \<Rightarrow> error + Transaction" where
  "Transaction_from_dict utcnow d =
     try_then (getitem d ''user_id'') (\<lambda>ju.
     try_then (getitem d ''book_title'') (\<lambda>jb.
     try_then (getitem d ''action'') (\<lambda>ja.
     try_then (dict_get d ''date'' JNull) (\<lambda>jd.
     try_then (as_str ju) (\<lambda>uid.
     try_then (as_str jb) (\<lambda>ttl.
     try_then (as_str ja) (\<lambda>act.
     try_then (as_str_option jd) (\<lambda>dt.
       Inr (Transaction_init utcnow uid ttl act dt)))))))))"

text \<open>The dict \<open>data\<close> that \<open>save_to_file\<close> builds and dumps.\<close>

definition save_data :: "Library \<Rightarrow> json" where
  "save_data lib =
     JObj [(''books'', JObj (map (\<lambda>(t, b). (t, Book_to_dict b)) (books lib))),
           (''users'', JObj (map (\<lambda>(uid, u). (uid, User_to_dict u)) (users lib))),
           (''transactions'', JArr (map Transaction_to_dict (transactions lib)))]"

text \<open>
  \<open>json.dump\<close> turns every integer into its decimal digits, and CPython refuses that with
  \<open>ValueError\<close> for an integer of more digits than \<open>sys.get_int_max_str_digits()\<close>: 4300
  by default since version 3.11, and 0 (also the value here for a version without the limit)
  for no limit.
\<close>

definition int_str_ok :: "nat \<Rightarrow> int \<Rightarrow> bool" where
  "int_str_ok max_str_digits n = (max_str_digits = 0 \<or> \<bar>n\<bar> < 10 ^ max_str_digits)"

fun dump_ok :: "nat \<Rightarrow> json \<Rightarrow> bool" where
  "dump_ok max_str_digits (JInt n) = int_str_ok max_str_digits n"
| "dump_ok max_str_digits (JArr xs) = (\<forall>x \<in> set xs. dump_ok max_str_digits x)"
| "dump_ok max_str_digits (JObj kvs) = (\<forall>x \<in> set (map snd kvs). dump_ok max_str_digits x)"
| "dump_ok max_str_digits j = True"

text \<open>What the storage does with \<open>open(filename, "w")\<close> and with the writes that follow:
  both succeed, \<open>open\<close> raises, or a write raises (an \<open>OSError\<close> each time).\<close>

datatype storage = Storage_works | Open_fails | Write_fails

text \<open>
  \<open>save_to_file\<close> opens the file, which empties it, and \<open>json.dump\<close> writes the text
  piece by piece, the opening brace first. A call that \<open>open\<close> stops leaves the files as
  they are. A call stopped later, by the storage or by an integer that is too long, leaves
  a text that ends before the closing brace, which \<open>json.load\<close> rejects. Nothing is
  caught, so the exception leaves \<open>save_to_file\<close>; otherwise it returns \<open>True\<close>.
\<close>

definition save_to_file ::
  "storage \<Rightarrow> nat \<Rightarrow> filesystem \<Rightarrow> Library \<Rightarrow> string \<Rightarrow> filesystem \<times> (error + bool)" where
  "save_to_file sto max_str_digits fs lib filename =
     (case sto of
        Open_fails \<Rightarrow> (fs, Inl OSError)
      | Write_fails \<Rightarrow> (fs(filename \<mapsto> Malformed), Inl OSError)
      | Storage_works \<Rightarrow>
          if dump_ok max_str_digits (save_data lib)
          then (fs(filename \<mapsto> Document (save_data lib)), Inr True)
          else (fs(filename \<mapsto> Malformed), Inl ValueError))"

text \<open>
  \<open>load_from_file\<close> assigns \<open>self.books\<close>, \<open>self.users\<close> and \<open>self.transactions\<close> one
  after the other, and only \<open>FileNotFoundError\<close> is caught: an exception raised while one
  of them is computed leaves the ones before it assigned. The result is the store the
  call leaves behind, with the exception or the value returned. \<open>uuids i\<close> is the
  identifier drawn for the \<open>i\<close>-th user and \<open>clock i\<close> the reading of the clock for the
  \<open>i\<close>-th transaction.
\<close>

definition load_from_file ::
  "(nat \<Rightarrow> string) \<Rightarrow> (nat \<Rightarrow> datetime) \<Rightarrow> filesystem \<Rightarrow> Library \<Rightarrow> string \<Rightarrow>
   Library \<times> (error + bool)" where
  "load_from_file uuids clock fs lib filename =
     (case fs filename of
        None \<Rightarrow> (lib, Inr False)
      | Some Malformed \<Rightarrow> (lib, Inl JSONDecodeError)
      | Some (Document data) \<Rightarrow>
          (case try_then (dict_get data ''books'' (JObj [])) (\<lambda>v.
                try_then (dict_items v)
                  (comprehension (\<lambda>i (t, b). try_then (Book_from_dict b) (\<lambda>x. Inr (t, x))) 0)) of
             Inl e \<Rightarrow> (lib, Inl e)
           | Inr bs \<Rightarrow>
               (case try_then (dict_get data ''users'' (JObj [])) (\<lambda>v.
                     try_then (dict_items v)
                       (comprehension
                          (\<lambda>i (uid, u). try_then (User_from_dict (uuids i) u) (\<lambda>x. Inr (uid, x))) 0)) of
                  Inl e \<Rightarrow> (lib\<lparr>books := bs\<rparr>, Inl e)
                | Inr us \<Rightarrow>
                    (case try_then (dict_get data ''transactions'' (JArr [])) (\<lambda>v.
                          try_then (iterate v)
                            (comprehension (\<lambda>i t. Transaction_from_dict (clock i) t) 0)) of
                       Inl e \<Rightarrow> (lib\<lparr>books := bs, users := us\<rparr>, Inl e)
                     | Inr ts \<Rightarrow>
                         (lib\<lparr>books := bs, users := us, transactions := ts\<rparr>, Inr True)))))"

subsection \<open>Sequences of calls\<close>

text \<open>
  The calls that the menu of \<open>main_menu\<close> dispatches to, each with what it reads from
  outside. A call that raises leaves the store as it is at that moment.
\<close>

datatype call =
    AddBook string string string int
  | RemoveBook string
  | AddUser string string string
  | RemoveUser string
  | IssueBook datetime datetime string string
  | ReturnBook datetime string string
  | Save storage nat string
  | Load "nat \<Rightarrow> string" "nat \<Rightarrow> datetime" string

fun perform :: "Library \<times> filesystem \<Rightarrow> call \<Rightarrow> Library \<times> filesystem" where
  "perform (lib, fs) (AddBook ttl auth gen qty) = (add_book lib ttl auth gen qty, fs)"
| "perform (lib, fs) (RemoveBook ttl) = (fst (remove_book lib ttl), fs)"
| "perform (lib, fs) (AddUser uuid4 nm con) = (fst (add_user uuid4 lib nm con), fs)"
| "perform (lib, fs) (RemoveUser uid) = (fst (remove_user lib uid), fs)"
| "perform (lib, fs) (IssueBook utcnow utcnow2 uid ttl) =
     (case issue_book utcnow utcnow2 lib uid ttl of
        Inl e \<Rightarrow> (lib, fs)
      | Inr (lib', r) \<Rightarrow> (lib', fs))"
| "perform (lib, fs) (ReturnBook utcnow uid ttl) = (fst (return_book utcnow lib uid ttl), fs)"
| "perform (lib, fs) (Save sto max_str_digits filename) =
     (lib, fst (save_to_file sto max_str_digits fs lib filename))"
| "perform (lib, fs) (Load uuids clock filename) =
     (fst (load_from_file uuids clock fs lib filename), fs)"

definition run :: "call list \<Rightarrow> Library \<times> filesystem" where
  "run calls = foldl perform (Library_init, Map.empty) calls"

fun catalog_call :: "call \<Rightarrow> bool" where
  "catalog_call (AddBook ttl auth gen qty) = (0 \<le> qty)"
| "catalog_call (Save sto max_str_digits filename) = False"
| "catalog_call (Load uuids clock filename) = False"
| "catalog_call c = True"

definition quantities_nonneg :: "Library \<Rightarrow> bool" where
  "quantities_nonneg lib = (\<forall>(t, b) \<in> set (books lib). 0 \<le> quantity b)"

definition keys_coherent :: "Library \<Rightarrow> bool" where
  "keys_coherent lib =
     ((\<forall>(t, b) \<in> set (books lib). title b = t) \<and> (\<forall>(k, u) \<in> set (users lib). id' u = k))"

text \<open>What the constructor of \<open>Transaction\<close> establishes: no transaction has an empty
  date.\<close>

definition dates_nonempty :: "Library \<Rightarrow> bool" where
  "dates_nonempty lib = (\<forall>t \<in> set (transactions lib). date t \<noteq> [])"

text \<open>What makes an association list a dict: no key occurs twice.\<close>

definition keys_distinct :: "Library \<Rightarrow> bool" where
  "keys_distinct lib =
     (distinct (map fst (books lib)) \<and> distinct (map fst (users lib)) \<and>
      (\<forall>u \<in> set (map snd (users lib)). distinct (map fst (borrowed u))))"

text \<open>Every file is what a call of \<open>save_to_file\<close> left: the document of a store with
  property \<open>P\<close>, or the text of a call that was stopped.\<close>

definition files_saved :: "(Library \<Rightarrow> bool) \<Rightarrow> filesystem \<Rightarrow> bool" where
  "files_saved P fs =
     (\<forall>filename f. fs filename = Some f \<longrightarrow>
        f = Malformed \<or> (\<exists>lib. f = Document (save_data lib) \<and> P lib \<and> dates_nonempty lib))"

fun file_call :: "call \<Rightarrow> bool" where
  "file_call (Save sto max_str_digits filename) = True"
| "file_call (Load uuids clock filename) = True"
| "file_call c = False"

subsection \<open>A store, a clock and sequences of calls for the examples\<close>

definition example_clock :: datetime where
  "example_clock =
     \<lparr>year = 2024, month = 2, day = 20, hour = 9, minute = 30, second = 5, microsecond = 0\<rparr>"

definition example_store :: Library where
  "example_store =
     \<lparr>books = [(''Dune'', \<lparr>title = ''Dune'', author = ''Herbert'', genre = ''SF'',
                           quantity = 1, issued_count = 4\<rparr>),
               (''Emma'', \<lparr>title = ''Emma'', author = ''Austen'', genre = ''Novel'',
                           quantity = 0, issued_count = 2\<rparr>)],
      users = [(''u1'', \<lparr>id' = ''u1'', name = ''Ann'', contact = ''ann@x'',
                         borrowed = [(''Emma'', ''2024-02-19''), (''Dune'', ''2024-02-20'')]\<rparr>),
               (''u2'', \<lparr>id' = ''u2'', name = ''Bob'', contact = ''bob@x'',
                         borrowed = [(''Foo'', ''2024-01-31'')]\<rparr>)],
      transactions = [\<lparr>user_id = ''u2'', book_title = ''Foo'', action = ''issue'',
                        date = ''2024-01-17T08:00:00''\<rparr>]\<rparr>"

definition example_calls :: "call list" where
  "example_calls =
     [AddBook ''Dune'' ''Herbert'' ''SF'' 1, AddUser ''u1'' ''Ann'' ''ann@x'',
      IssueBook example_clock example_clock ''u1'' ''Dune'',
      IssueBook example_clock example_clock ''u1'' ''Dune'',
      RemoveBook ''Dune'', ReturnBook example_clock ''u1'' ''Dune'']"

definition example_file_calls :: "call list" where
  "example_file_calls =
     [AddBook ''Dune'' ''Herbert'' ''SF'' 1, AddUser ''u1'' ''Ann'' ''ann@x'',
      IssueBook example_clock example_clock ''u1'' ''Dune'',
      Save Storage_works 4300 ''library_data.json'',
      RemoveBook ''Dune'', RemoveUser ''u1'',
      Load (\<lambda>i. ''u0'') (\<lambda>i. example_clock) ''library_data.json'']"






section \<open>Properties\<close>

subsection \<open>Association lists as dicts\<close>

lemma map_of_update_same: "map_of (AList.update k v al) k = Some v"
  by (simp add: update_conv')

lemma map_of_update_other: "k' \<noteq> k \<Longrightarrow> map_of (AList.update k v al) k' = map_of al k'"
  by (simp add: update_conv')

lemma keys_update_present: "map_of al k = Some w \<Longrightarrow> map fst (AList.update k v al) = map fst al"
  by (induction al) auto

lemma keys_update_absent: "map_of al k = None \<Longrightarrow> map fst (AList.update k v al) = map fst al @ [k]"
  by (induction al) auto

lemma update_absent: "map_of al k = None \<Longrightarrow> AList.update k v al = al @ [(k, v)]"
  by (induction al) auto

subsection \<open>The calendar\<close>

lemma days_before_month_numeral:
  "days_before_month y (numeral k) =
     (if pred_numeral k = 0 then 0
      else days_before_month y (pred_numeral k) + days_in_month y (pred_numeral k))"
  by (simp add: numeral_eq_Suc)


lemma days_before_month_1: "days_before_month y 1 = 0"
  by (simp add: One_nat_def del: One_nat_def [symmetric])

lemma days_before_december: "days_before_month y 12 = (if is_leap y then 335 else 334)"
  by (simp add: days_before_month_numeral days_before_month_1 days_in_month_def)




lemma div_100_le_div_4: "(p::nat) div 100 \<le> p div 4" by (rule div_le_mono2) simp_all
lemma mod_400_mod_100: "Suc p mod 400 = 0 \<Longrightarrow> Suc p mod 100 = 0"
proof -
  assume "Suc p mod 400 = 0"
  then have "400 dvd Suc p" by (simp add: mod_eq_0_iff_dvd)
  moreover have "(100::nat) dvd 400" by simp
  ultimately have "100 dvd Suc p" by (rule dvd_trans [rotated])
  then show ?thesis by (simp add: mod_eq_0_iff_dvd)
qed

lemma mod_100_mod_4: "Suc p mod 100 = 0 \<Longrightarrow> Suc p mod 4 = 0"
proof -
  assume "Suc p mod 100 = 0"
  then have "100 dvd Suc p" by (simp add: mod_eq_0_iff_dvd)
  moreover have "(4::nat) dvd 100" by simp
  ultimately have "4 dvd Suc p" by (rule dvd_trans [rotated])
  then show ?thesis by (simp add: mod_eq_0_iff_dvd)
qed

lemma leap_count:
  fixes q4 q100 q400 :: nat
  assumes "q100 \<le> q4" "c \<Longrightarrow> b" "b \<Longrightarrow> a"
  shows "Suc p * 365 + (if a then Suc q4 else q4) - (if b then Suc q100 else q100)
           + (if c then Suc q400 else q400)
         = p * 365 + q4 - q100 + q400 + (if a \<and> (\<not> b \<or> c) then 366 else 365)"
  using assms by (cases a; cases b; cases c) simp_all

lemma days_before_next_year:
  assumes "1 \<le> y"
  shows "days_before_year (Suc y) = days_before_year y + (if is_leap y then 366 else 365)"
proof -
  obtain p where p: "y = Suc p" using assms by (cases y) auto
  have "days_before_year (Suc (Suc p)) =
      Suc p * 365 + (if Suc p mod 4 = 0 then Suc (p div 4) else p div 4)
        - (if Suc p mod 100 = 0 then Suc (p div 100) else p div 100)
        + (if Suc p mod 400 = 0 then Suc (p div 400) else p div 400)"
    unfolding days_before_year_def Let_def by (simp only: diff_Suc_1 div_Suc)
  also have "\<dots> = p * 365 + p div 4 - p div 100 + p div 400
        + (if Suc p mod 4 = 0 \<and> (\<not> Suc p mod 100 = 0 \<or> Suc p mod 400 = 0) then 366 else 365)"
    by (rule leap_count) (rule div_100_le_div_4 mod_400_mod_100 mod_100_mod_4, assumption?)+
  also have "\<dots> = days_before_year (Suc p) + (if is_leap (Suc p) then 366 else 365)"
    unfolding days_before_year_def Let_def is_leap_def by (simp only: diff_Suc_1)
  finally show ?thesis by (simp only: p)
qed


lemma toordinal_next_day:
  assumes "valid_date d"
  shows "toordinal (next_day d) = toordinal d + 1"
proof -
  from assms have y: "1 \<le> year d" and m: "1 \<le> month d" "month d \<le> 12"
    and dd: "day d \<le> days_in_month (year d) (month d)"
    by (simp_all add: valid_date_def)
  consider "day d < days_in_month (year d) (month d)"
    | "day d = days_in_month (year d) (month d)" "month d < 12"
    | "day d = days_in_month (year d) (month d)" "month d = 12"
    using dd m by linarith
  then show ?thesis
  proof cases
    case 1
    then show ?thesis by (simp add: next_day_def toordinal_def)
  next
    case 2
    from m obtain k where k: "month d = Suc k" by (cases "month d") auto
    with 2 show ?thesis
      by (simp add: next_day_def toordinal_def)
  next
    case 3
    then have day: "day d = 31" by (simp add: days_in_month_def)
    have "toordinal (next_day d) = days_before_year (Suc (year d)) + 1"
      using 3 by (simp add: next_day_def toordinal_def days_before_month_1)
    also have "\<dots> = days_before_year (year d) + (if is_leap (year d) then 366 else 365) + 1"
      using y by (simp only: days_before_next_year)
    also have "\<dots> = toordinal d + 1"
      using 3 day by (simp add: toordinal_def days_before_december)
    finally show ?thesis .
  qed
qed

lemma valid_next_day:
  "valid_date d \<Longrightarrow> year (next_day d) \<le> MAXYEAR \<Longrightarrow> valid_date (next_day d)"
  by (auto simp: valid_date_def next_day_def days_in_month_def)


lemma year_next_day: "year d \<le> year (next_day d)"
  by (simp add: next_day_def)

lemma year_plus_days: "year d \<le> year (plus_days d n)"
proof (induction n arbitrary: d)
  case 0
  then show ?case by simp
next
  case (Suc n)
  have "year d \<le> year (next_day d)" by (rule year_next_day)
  also have "\<dots> \<le> year (plus_days (next_day d) n)" by (rule Suc.IH)
  finally show ?case by simp
qed

lemma toordinal_plus_days:
  "valid_date d \<Longrightarrow> year (plus_days d n) \<le> MAXYEAR \<Longrightarrow>
     valid_date (plus_days d n) \<and> toordinal (plus_days d n) = toordinal d + n"
proof (induction n arbitrary: d)
  case 0
  then show ?case by simp
next
  case (Suc n)
  have "year (next_day d) \<le> year (plus_days (next_day d) n)" by (rule year_plus_days)
  with Suc.prems have v: "valid_date (next_day d)"
    by (intro valid_next_day) simp_all
  from Suc.IH [OF v] Suc.prems show ?case
    by (simp add: toordinal_next_day)
qed

lemma digit_value_nth:
  assumes "k < 10"
  shows "digit_value (''0123456789'' ! k) = Some k"
proof -
  from assms have "k = 0 \<or> k = 1 \<or> k = 2 \<or> k = 3 \<or> k = 4
    \<or> k = 5 \<or> k = 6 \<or> k = 7 \<or> k = 8 \<or> k = 9"
    by arith
  then show ?thesis
    by (elim disjE) (simp_all add: digit_value_def)
qed

lemma digit_value_digit: "digit_value (digit n) = Some (n mod 10)"
  unfolding digit_def by (rule digit_value_nth) simp

lemma number_value_pad2: "n < 100 \<Longrightarrow> number_value (pad2 n) 0 = Some n"
  by (simp add: pad2_def digit_value_digit)

lemma number_value_pad4:
  assumes "n < 10000"
  shows "number_value (pad4 n) 0 = Some n"
proof -
  define a where "a = n div 10"
  define b where "b = a div 10"
  define c where "c = b div 10"
  have b: "n div 100 = b" and c: "n div 1000 = c"
    by (simp_all add: a_def b_def c_def div_mult2_eq)
  from assms have "c < 10" unfolding c [symmetric] by simp
  then have "(c mod 10 * 10 + b mod 10) = b" by (simp add: c_def)
  then have "((c mod 10 * 10 + b mod 10) * 10 + a mod 10) * 10 + n mod 10 = n"
    by (simp add: b_def a_def)
  then show ?thesis
    by (simp add: pad4_def digit_value_digit b c a_def [symmetric] mult.commute add.commute)
qed


lemma length_pad [simp]: "length (pad2 n) = 2" "length (pad4 n) = 4"
  by (simp_all add: pad2_def pad4_def)

lemma parse_ymd_isoformat:
  assumes "valid_date d"
  shows "parse_ymd (date_isoformat d) =
           Some \<lparr>year = year d, month = month d, day = day d,
                  hour = 0, minute = 0, second = 0, microsecond = 0\<rparr>"
proof -
  let ?s = "date_isoformat d"
  have len: "length ?s = 10" by (simp add: date_isoformat_def)
  have parts: "take 4 ?s = pad4 (year d)" "take 2 (drop 5 ?s) = pad2 (month d)"
      "drop 8 ?s = pad2 (day d)"
    by (simp_all add: date_isoformat_def)
  have dash: "?s ! 4 = CHR ''-''" "?s ! 7 = CHR ''-''"
    by (simp_all add: date_isoformat_def nth_append)
  from assms have "year d < 10000" "month d < 100" "day d < 100"
    by (auto simp: valid_date_def MAXYEAR_def days_in_month_def split: if_splits)
  then have nums: "number_value (pad4 (year d)) 0 = Some (year d)"
      "number_value (pad2 (month d)) 0 = Some (month d)"
      "number_value (pad2 (day d)) 0 = Some (day d)"
    by (simp_all only: number_value_pad4 number_value_pad2)
  have v: "valid_date \<lparr>year = year d, month = month d, day = day d,
                  hour = 0, minute = 0, second = 0, microsecond = 0\<rparr>"
    using assms by (simp add: valid_date_def)
  show ?thesis
    unfolding parse_ymd_def by (simp only: len parts dash nums) (simp add: v)
qed

subsection \<open>The examples evaluated\<close>

lemma plus_days_numeral: "plus_days d (numeral k) = plus_days (next_day d) (pred_numeral k)"
  by (simp add: numeral_eq_Suc)

lemma fortnight: "plus_days example_clock 14 = example_clock\<lparr>month := 3, day := 5\<rparr>"
  by (simp add: example_clock_def plus_days_numeral next_day_def days_in_month_def is_leap_def)

lemma example_due:
  "add_timedelta_days example_clock 14 = Inr (plus_days example_clock 14)"
  "date_isoformat (date.truncate (plus_days example_clock 14)) = ''2024-03-05''"
  unfolding add_timedelta_days_def fortnight
  by (simp_all add: example_clock_def MAXYEAR_def date_isoformat_def pad4_def pad2_def digit_def
      date.truncate_def)

lemma example_stamp: "datetime_isoformat example_clock = ''2024-02-20T09:30:05''"
  by (simp add: example_clock_def datetime_isoformat_def date_isoformat_def pad4_def pad2_def
      digit_def date.truncate_def)

lemma int_str_ok_small: "\<bar>n\<bar> < 10 \<Longrightarrow> int_str_ok max_str_digits n"
proof (cases "max_str_digits = 0")
  case True
  then show ?thesis by (simp add: int_str_ok_def)
next
  case False
  assume "\<bar>n\<bar> < 10"
  also have "(10::int) = 10 ^ 1" by simp
  also from False have "\<dots> \<le> 10 ^ max_str_digits"
    by (intro power_increasing) simp_all
  finally show ?thesis by (simp add: int_str_ok_def)
qed

lemma run_example_calls:
  "fst (run example_calls) =
     \<lparr>books = [(''Dune'', \<lparr>title = ''Dune'', author = ''Unknown'', genre = ''Unknown'',
                           quantity = 1, issued_count = 0\<rparr>)],
      users = [(''u1'', \<lparr>id' = ''u1'', name = ''Ann'', contact = ''ann@x'', borrowed = []\<rparr>)],
      transactions =
        [\<lparr>user_id = ''u1'', book_title = ''Dune'', action = ''issue'', date = ''2024-02-20T09:30:05''\<rparr>,
         \<lparr>user_id = ''u1'', book_title = ''Dune'', action = ''return'', date = ''2024-02-20T09:30:05''\<rparr>]\<rparr>"
  by (simp add: run_def example_calls_def Library_init_def add_book_def Book_init_def add_user_def
      User_init_def issue_book_def example_due Transaction_init_def example_stamp remove_book_def
      return_book_def Let_def)

lemma run_example_file_calls:
  "fst (run example_file_calls) =
     \<lparr>books = [(''Dune'', \<lparr>title = ''Dune'', author = ''Herbert'', genre = ''SF'',
                           quantity = 0, issued_count = 1\<rparr>)],
      users = [(''u1'', \<lparr>id' = ''u1'', name = ''Ann'', contact = ''ann@x'',
                         borrowed = [(''Dune'', ''2024-03-05'')]\<rparr>)],
      transactions =
        [\<lparr>user_id = ''u1'', book_title = ''Dune'', action = ''issue'', date = ''2024-02-20T09:30:05''\<rparr>]\<rparr>"
  by (simp add: run_def example_file_calls_def Library_init_def add_book_def Book_init_def add_user_def
      User_init_def issue_book_def example_due Transaction_init_def example_stamp remove_book_def
      remove_user_def Let_def save_to_file_def save_data_def load_from_file_def int_str_ok_small
      Book_to_dict_def User_to_dict_def Transaction_to_dict_def Book_from_dict_def User_from_dict_def
      Transaction_from_dict_def try_then_def)

lemma parse_ymd_19: "parse_ymd ''2024-02-19'' = Some \<lparr>year = 2024, month = 2, day = 19, hour = 0, minute = 0, second = 0, microsecond = 0\<rparr>"
  by (simp add: parse_ymd_def digit_value_def valid_date_def days_in_month_def is_leap_def MAXYEAR_def)

lemma parse_ymd_20: "parse_ymd ''2024-02-20'' = Some \<lparr>year = 2024, month = 2, day = 20, hour = 0, minute = 0, second = 0, microsecond = 0\<rparr>"
  by (simp add: parse_ymd_def digit_value_def valid_date_def days_in_month_def is_leap_def MAXYEAR_def)

lemma parse_ymd_31: "parse_ymd ''2024-01-31'' = Some \<lparr>year = 2024, month = 1, day = 31, hour = 0, minute = 0, second = 0, microsecond = 0\<rparr>"
  by (simp add: parse_ymd_def digit_value_def valid_date_def days_in_month_def is_leap_def MAXYEAR_def)

subsection \<open>\<open>add_book\<close>\<close>

text \<open>
  Claim C8. \<open>add_book\<close> with a title that is not in the catalog appends a record with that
  title, the author, genre and quantity supplied, and \<open>issued_count\<close> 0. With a title that is in
  the catalog it adds the quantity supplied to the quantity of the record and keeps its title,
  author, genre and \<open>issued_count\<close>, whatever author and genre are supplied, and keeps the
  order of the catalog. In both cases every entry of another title is as before, in the same
  order, and the users and the transactions are as before. The function is total: it reports
  no error. This holds for every integer quantity, so for every non-negative one.
\<close>

theorem add_book_spec:
  "(map_of (books lib) ttl = None \<longrightarrow>
      books (add_book lib ttl auth gen qty) =
        books lib @ [(ttl, \<lparr>title = ttl, author = auth, genre = gen, quantity = qty, issued_count = 0\<rparr>)])
   \<and> (\<forall>b. map_of (books lib) ttl = Some b \<longrightarrow>
         map_of (books (add_book lib ttl auth gen qty)) ttl =
           Some \<lparr>title = title b, author = author b, genre = genre b,
                 quantity = quantity b + qty, issued_count = issued_count b\<rparr>
         \<and> map fst (books (add_book lib ttl auth gen qty)) = map fst (books lib))
   \<and> AList.delete ttl (books (add_book lib ttl auth gen qty)) = AList.delete ttl (books lib)
   \<and> (\<forall>t'. t' \<noteq> ttl \<longrightarrow> map_of (books (add_book lib ttl auth gen qty)) t' = map_of (books lib) t')
   \<and> users (add_book lib ttl auth gen qty) = users lib
   \<and> transactions (add_book lib ttl auth gen qty) = transactions lib"
proof (cases "map_of (books lib) ttl")
  case None
  then have "add_book lib ttl auth gen qty =
      lib\<lparr>books := AList.update ttl (Book_init ttl auth gen qty) (books lib)\<rparr>"
    by (simp add: add_book_def)
  with None show ?thesis
    by (simp add: Book_init_def update_absent [symmetric] map_of_update_other delete_update_same)
next
  case (Some b)
  then have "add_book lib ttl auth gen qty =
      lib\<lparr>books := AList.update ttl (b\<lparr>quantity := quantity b + qty\<rparr>) (books lib)\<rparr>"
    by (simp add: add_book_def)
  with Some show ?thesis
    by (simp add: map_of_update_same map_of_update_other keys_update_present delete_update_same)
qed

theorem add_book_spec_witness:
  "map_of (books example_store) ''Zen'' = None
   \<and> books (add_book example_store ''Zen'' ''Pirsig'' ''Essay'' 3) =
       books example_store @
         [(''Zen'', \<lparr>title = ''Zen'', author = ''Pirsig'', genre = ''Essay'', quantity = 3, issued_count = 0\<rparr>)]
   \<and> map_of (books example_store) ''Dune'' =
       Some \<lparr>title = ''Dune'', author = ''Herbert'', genre = ''SF'', quantity = 1, issued_count = 4\<rparr>
   \<and> map_of (books (add_book example_store ''Dune'' ''Frank'' ''Novel'' 2)) ''Dune'' =
       Some \<lparr>title = ''Dune'', author = ''Herbert'', genre = ''SF'', quantity = 3, issued_count = 4\<rparr>
   \<and> map fst (books (add_book example_store ''Dune'' ''Frank'' ''Novel'' 2)) = [''Dune'', ''Emma'']
   \<and> ''Emma'' \<noteq> ''Dune''
   \<and> map_of (books (add_book example_store ''Dune'' ''Frank'' ''Novel'' 2)) ''Emma'' =
       map_of (books example_store) ''Emma''"
  using add_book_spec [of example_store "''Zen''" "''Pirsig''" "''Essay''" 3]
        add_book_spec [of example_store "''Dune''" "''Frank''" "''Novel''" 2]
  by (simp add: example_store_def)

subsection \<open>\<open>issue_book\<close>\<close>

text \<open>
  Claim C1. When the user is registered, the title is in the catalog with a quantity above 0
  (the user may hold the title already), and the clock is such that the day fourteen days later
  is a date of the calendar, \<open>issue_book\<close> succeeds: the message ends with the due date, which
  is the ISO form of the date fourteen days after the one of the clock; the user's \<open>borrowed\<close>
  maps the title to that due date (in place when the title is already there, at the end
  otherwise) and is unchanged for every other title; the user's id, name and contact, every
  other user and the order of the users are unchanged; the quantity of the book is one less and
  its \<open>issued_count\<close> one more, its other fields, every other book and the order of the catalog
  are unchanged; one transaction with action \<open>issue\<close> for the user and the title is appended to
  the log. When the clock shows a date of the calendar, the due date is one too, its ordinal
  is 14 more than the one of the clock, and the ten characters \<open>YYYY-MM-DD\<close> of the message
  read back as that date.
\<close>

theorem issue_book_success:
  assumes "map_of (users lib) uid = Some u"
      and "map_of (books lib) ttl = Some b"
      and "0 < quantity b"
      and "year (plus_days utcnow 14) \<le> MAXYEAR"
  shows "\<exists>lib' u' b' due.
      issue_book utcnow utcnow2 lib uid ttl = Inr (lib', True, ''Issued. Due: '' @ due)
    \<and> due = date_isoformat (date.truncate (plus_days utcnow 14))
    \<and> map_of (users lib') uid = Some u'
    \<and> map_of (borrowed u') ttl = Some due
    \<and> AList.delete ttl (borrowed u') = AList.delete ttl (borrowed u)
    \<and> map fst (borrowed u') =
        (if map_of (borrowed u) ttl = None then map fst (borrowed u) @ [ttl] else map fst (borrowed u))
    \<and> id' u' = id' u \<and> name u' = name u \<and> contact u' = contact u
    \<and> AList.delete uid (users lib') = AList.delete uid (users lib)
    \<and> map fst (users lib') = map fst (users lib)
    \<and> map_of (books lib') ttl = Some b'
    \<and> quantity b' = quantity b - 1 \<and> issued_count b' = issued_count b + 1
    \<and> title b' = title b \<and> author b' = author b \<and> genre b' = genre b
    \<and> AList.delete ttl (books lib') = AList.delete ttl (books lib)
    \<and> map fst (books lib') = map fst (books lib)
    \<and> transactions lib' = transactions lib @
         [\<lparr>user_id = uid, book_title = ttl, action = ''issue'', date = datetime_isoformat utcnow2\<rparr>]
    \<and> (valid_date utcnow \<longrightarrow>
          valid_date (plus_days utcnow 14)
        \<and> toordinal (plus_days utcnow 14) = toordinal utcnow + 14
        \<and> parse_ymd due =
            Some \<lparr>year = year (plus_days utcnow 14), month = month (plus_days utcnow 14),
                  day = day (plus_days utcnow 14),
                  hour = 0, minute = 0, second = 0, microsecond = 0\<rparr>)"
proof -
  define due where "due = date_isoformat (date.truncate (plus_days utcnow 14))"
  define u' where "u' = u\<lparr>borrowed := AList.update ttl due (borrowed u)\<rparr>"
  define b' where "b' = b\<lparr>quantity := quantity b - 1, issued_count := issued_count b + 1\<rparr>"
  define lib' where "lib' = lib\<lparr>books := AList.update ttl b' (books lib),
      users := AList.update uid u' (users lib),
      transactions := transactions lib @ [Transaction_init utcnow2 uid ttl ''issue'' None]\<rparr>"
  have run: "issue_book utcnow utcnow2 lib uid ttl = Inr (lib', True, ''Issued. Due: '' @ due)"
    using assms by (simp add: issue_book_def add_timedelta_days_def Let_def lib'_def u'_def b'_def due_def)
  have keys: "map fst (borrowed u') =
        (if map_of (borrowed u) ttl = None then map fst (borrowed u) @ [ttl] else map fst (borrowed u))"
    by (auto simp: u'_def keys_update_absent keys_update_present)
  have usr: "map_of (users lib') uid = Some u'" "map_of (borrowed u') ttl = Some due"
      "AList.delete ttl (borrowed u') = AList.delete ttl (borrowed u)"
      "id' u' = id' u" "name u' = name u" "contact u' = contact u"
      "AList.delete uid (users lib') = AList.delete uid (users lib)"
      "map fst (users lib') = map fst (users lib)"
    using assms(1) by (simp_all add: lib'_def u'_def map_of_update_same delete_update_same keys_update_present)
  have bk: "map_of (books lib') ttl = Some b'"
      "quantity b' = quantity b - 1" "issued_count b' = issued_count b + 1"
      "title b' = title b" "author b' = author b" "genre b' = genre b"
      "AList.delete ttl (books lib') = AList.delete ttl (books lib)"
      "map fst (books lib') = map fst (books lib)"
    using assms(2) by (simp_all add: lib'_def b'_def map_of_update_same delete_update_same keys_update_present)
  have tr: "transactions lib' = transactions lib @
         [\<lparr>user_id = uid, book_title = ttl, action = ''issue'', date = datetime_isoformat utcnow2\<rparr>]"
    by (simp add: lib'_def Transaction_init_def)
  have cal: "valid_date utcnow \<longrightarrow>
          valid_date (plus_days utcnow 14)
        \<and> toordinal (plus_days utcnow 14) = toordinal utcnow + 14
        \<and> parse_ymd due =
            Some \<lparr>year = year (plus_days utcnow 14), month = month (plus_days utcnow 14),
                  day = day (plus_days utcnow 14),
                  hour = 0, minute = 0, second = 0, microsecond = 0\<rparr>"
  proof
    assume "valid_date utcnow"
    with assms(4) have v: "valid_date (plus_days utcnow 14)"
      and o: "toordinal (plus_days utcnow 14) = toordinal utcnow + 14"
      using toordinal_plus_days [of utcnow 14] by simp_all
    from v have "valid_date (date.truncate (plus_days utcnow 14))"
      by (simp add: valid_date_def date.truncate_def)
    then have "parse_ymd due =
            Some \<lparr>year = year (date.truncate (plus_days utcnow 14)),
                  month = month (date.truncate (plus_days utcnow 14)),
                  day = day (date.truncate (plus_days utcnow 14)),
                  hour = 0, minute = 0, second = 0, microsecond = 0\<rparr>"
      unfolding due_def by (rule parse_ymd_isoformat)
    with v o show "valid_date (plus_days utcnow 14)
        \<and> toordinal (plus_days utcnow 14) = toordinal utcnow + 14
        \<and> parse_ymd due =
            Some \<lparr>year = year (plus_days utcnow 14), month = month (plus_days utcnow 14),
                  day = day (plus_days utcnow 14),
                  hour = 0, minute = 0, second = 0, microsecond = 0\<rparr>"
      by (simp add: date.truncate_def)
  qed
  show ?thesis
    apply (rule exI[of _ lib'], rule exI[of _ u'], rule exI[of _ b'], rule exI[of _ due])
    using run keys usr bk tr due_def cal by simp
qed

theorem issue_book_success_witness:
  "map_of (users example_store) ''u1'' =
     Some \<lparr>id' = ''u1'', name = ''Ann'', contact = ''ann@x'',
           borrowed = [(''Emma'', ''2024-02-19''), (''Dune'', ''2024-02-20'')]\<rparr>
   \<and> map_of (books example_store) ''Dune'' =
     Some \<lparr>title = ''Dune'', author = ''Herbert'', genre = ''SF'', quantity = 1, issued_count = 4\<rparr>
   \<and> (0::int) < 1
   \<and> year (plus_days example_clock 14) \<le> MAXYEAR
   \<and> valid_date example_clock
   \<and> toordinal example_clock + 14 = 738950
   \<and> (\<exists>lib' u' b'.
        issue_book example_clock example_clock example_store ''u1'' ''Dune'' =
          Inr (lib', True, ''Issued. Due: 2024-03-05'')
      \<and> map_of (users lib') ''u1'' = Some u'
      \<and> map_of (borrowed u') ''Dune'' = Some ''2024-03-05''
      \<and> map fst (borrowed u') = [''Emma'', ''Dune'']
      \<and> map_of (books lib') ''Dune'' = Some b'
      \<and> quantity b' = 0 \<and> issued_count b' = 5
      \<and> transactions lib' = transactions example_store @
           [\<lparr>user_id = ''u1'', book_title = ''Dune'', action = ''issue'', date = ''2024-02-20T09:30:05''\<rparr>]
      \<and> toordinal (plus_days example_clock 14) = 738950
      \<and> parse_ymd ''2024-03-05'' =
            Some \<lparr>year = 2024, month = 3, day = 5, hour = 0, minute = 0, second = 0, microsecond = 0\<rparr>)"
proof -
  have h1: "map_of (users example_store) ''u1'' =
     Some \<lparr>id' = ''u1'', name = ''Ann'', contact = ''ann@x'',
           borrowed = [(''Emma'', ''2024-02-19''), (''Dune'', ''2024-02-20'')]\<rparr>"
    by (simp add: example_store_def)
  have h2: "map_of (books example_store) ''Dune'' =
     Some \<lparr>title = ''Dune'', author = ''Herbert'', genre = ''SF'', quantity = 1, issued_count = 4\<rparr>"
    by (simp add: example_store_def)
  have h3: "0 < quantity \<lparr>title = ''Dune'', author = ''Herbert'', genre = ''SF'', quantity = 1, issued_count = 4\<rparr>"
    by simp
  have h4: "year (plus_days example_clock 14) \<le> MAXYEAR"
    unfolding fortnight by (simp add: example_clock_def MAXYEAR_def)
  have due: "date_isoformat (date.truncate (plus_days example_clock 14)) = ''2024-03-05''"
    unfolding fortnight
    by (simp add: example_clock_def date_isoformat_def pad4_def pad2_def digit_def date.truncate_def)
  have stamp: "datetime_isoformat example_clock = ''2024-02-20T09:30:05''"
    by (simp add: example_clock_def datetime_isoformat_def date_isoformat_def pad4_def pad2_def
        digit_def date.truncate_def)
  have h5: "valid_date example_clock"
    by (simp add: example_clock_def valid_date_def MAXYEAR_def days_in_month_def is_leap_def)
  have ord: "toordinal example_clock + 14 = 738950"
    by (simp add: example_clock_def toordinal_def days_before_year_def days_before_month_numeral
        days_before_month_1 days_in_month_def is_leap_def)
  have later: "year (plus_days example_clock 14) = 2024" "month (plus_days example_clock 14) = 3"
      "day (plus_days example_clock 14) = 5"
    unfolding fortnight by (simp_all add: example_clock_def)
  from issue_book_success [OF h1 h2 h3 h4, of example_clock]
  obtain lib' u' b' where
      "issue_book example_clock example_clock example_store ''u1'' ''Dune'' =
          Inr (lib', True, ''Issued. Due: 2024-03-05'')"
      "map_of (users lib') ''u1'' = Some u'"
      "map_of (borrowed u') ''Dune'' = Some ''2024-03-05''"
      "map fst (borrowed u') = [''Emma'', ''Dune'']"
      "map_of (books lib') ''Dune'' = Some b'"
      "quantity b' = 0" "issued_count b' = 5"
      "transactions lib' = transactions example_store @
           [\<lparr>user_id = ''u1'', book_title = ''Dune'', action = ''issue'', date = ''2024-02-20T09:30:05''\<rparr>]"
      "toordinal (plus_days example_clock 14) = 738950"
      "parse_ymd ''2024-03-05'' =
            Some \<lparr>year = 2024, month = 3, day = 5, hour = 0, minute = 0, second = 0, microsecond = 0\<rparr>"
    unfolding due stamp using h5 ord later by auto
  with h1 h2 h4 h5 ord show ?thesis by simp
qed

text \<open>
  Claim C2. \<open>issue_book\<close> checks the user first, then the title, then the quantity: an
  unregistered user gives "User not found" whatever the title; a registered user and a title
  that is not in the catalog give "Book not found"; a registered user and a book whose quantity
  is 0 or less give "No copies available". Each failure is a returned value (the flag
  \<open>False\<close> and a message), not an exception, and whenever the flag returned is \<open>False\<close> the
  store returned is the store of the call and one of the three conditions holds.
\<close>

theorem issue_book_failures:
  "(map_of (users lib) uid = None \<longrightarrow>
      issue_book utcnow utcnow2 lib uid ttl = Inr (lib, False, ''User not found''))
   \<and> (map_of (users lib) uid \<noteq> None \<and> map_of (books lib) ttl = None \<longrightarrow>
      issue_book utcnow utcnow2 lib uid ttl = Inr (lib, False, ''Book not found''))
   \<and> (\<forall>b. map_of (users lib) uid \<noteq> None \<and> map_of (books lib) ttl = Some b \<and> quantity b \<le> 0 \<longrightarrow>
      issue_book utcnow utcnow2 lib uid ttl = Inr (lib, False, ''No copies available''))
   \<and> (\<forall>lib' msg. issue_book utcnow utcnow2 lib uid ttl = Inr (lib', False, msg) \<longrightarrow>
        lib' = lib \<and> 
        (map_of (users lib) uid = None \<or> map_of (books lib) ttl = None
          \<or> (\<exists>b. map_of (books lib) ttl = Some b \<and> quantity b \<le> 0)))"
  by (auto simp: issue_book_def Let_def split: option.splits sum.splits)

theorem issue_book_failures_witness:
  "map_of (users example_store) ''u9'' = None
   \<and> issue_book example_clock example_clock example_store ''u9'' ''Zen'' =
       Inr (example_store, False, ''User not found'')
   \<and> map_of (users example_store) ''u1'' \<noteq> None \<and> map_of (books example_store) ''Zen'' = None
   \<and> issue_book example_clock example_clock example_store ''u1'' ''Zen'' =
       Inr (example_store, False, ''Book not found'')
   \<and> map_of (books example_store) ''Emma'' =
       Some \<lparr>title = ''Emma'', author = ''Austen'', genre = ''Novel'', quantity = 0, issued_count = 2\<rparr>
   \<and> issue_book example_clock example_clock example_store ''u1'' ''Emma'' =
       Inr (example_store, False, ''No copies available'')"
  using issue_book_failures [of example_store "''u9''" example_clock example_clock "''Zen''"]
        issue_book_failures [of example_store "''u1''" example_clock example_clock "''Zen''"]
        issue_book_failures [of example_store "''u1''" example_clock example_clock "''Emma''"]
  by (simp add: example_store_def)

subsection \<open>\<open>return_book\<close>\<close>

text \<open>
  Claim C3. \<open>return_book\<close> returns the failure "User not found" for an unregistered user and
  "User did not borrow this book" when the title is not in the user's \<open>borrowed\<close>; the store is
  unchanged in both cases. Otherwise it succeeds: the title is removed from the user's
  \<open>borrowed\<close>, the rest of the user, every other user and the order of the users are unchanged;
  if the title is in the catalog its quantity is one more and its other fields, among them
  \<open>issued_count\<close>, are unchanged; if it is not, a record with that title, quantity 1, author and
  genre "Unknown" (and \<open>issued_count\<close> 0) is appended; every other book is unchanged; one
  transaction with action \<open>return\<close> is appended to the log.
\<close>

theorem return_book_spec:
  "(map_of (users lib) uid = None \<longrightarrow>
      return_book utcnow lib uid ttl = (lib, False, ''User not found''))
   \<and> (\<forall>u. map_of (users lib) uid = Some u \<and> map_of (borrowed u) ttl = None \<longrightarrow>
      return_book utcnow lib uid ttl = (lib, False, ''User did not borrow this book''))
   \<and> (\<forall>u due. map_of (users lib) uid = Some u \<and> map_of (borrowed u) ttl = Some due \<longrightarrow>
       (\<exists>lib' u'.
          return_book utcnow lib uid ttl = (lib', True, ''Returned'')
        \<and> map_of (users lib') uid = Some u'
        \<and> borrowed u' = AList.delete ttl (borrowed u)
        \<and> map_of (borrowed u') ttl = None
        \<and> id' u' = id' u \<and> name u' = name u \<and> contact u' = contact u
        \<and> AList.delete uid (users lib') = AList.delete uid (users lib)
        \<and> map fst (users lib') = map fst (users lib)
        \<and> (\<forall>b. map_of (books lib) ttl = Some b \<longrightarrow>
              map_of (books lib') ttl =
                Some \<lparr>title = title b, author = author b, genre = genre b,
                      quantity = quantity b + 1, issued_count = issued_count b\<rparr>
              \<and> map fst (books lib') = map fst (books lib))
        \<and> (map_of (books lib) ttl = None \<longrightarrow>
              books lib' = books lib @
                [(ttl, \<lparr>title = ttl, author = ''Unknown'', genre = ''Unknown'',
                        quantity = 1, issued_count = 0\<rparr>)])
        \<and> AList.delete ttl (books lib') = AList.delete ttl (books lib)
        \<and> transactions lib' = transactions lib @
             [\<lparr>user_id = uid, book_title = ttl, action = ''return'', date = datetime_isoformat utcnow\<rparr>]))"
  (is "_ \<and> _ \<and> (\<forall>u due. ?pre u due \<longrightarrow> ?post u due)")
proof (intro conjI allI impI)
  assume "map_of (users lib) uid = None"
  then show "return_book utcnow lib uid ttl = (lib, False, ''User not found'')"
    by (simp add: return_book_def)
next
  fix u assume "map_of (users lib) uid = Some u \<and> map_of (borrowed u) ttl = None"
  then show "return_book utcnow lib uid ttl = (lib, False, ''User did not borrow this book'')"
    by (simp add: return_book_def)
next
  fix u due assume a: "map_of (users lib) uid = Some u \<and> map_of (borrowed u) ttl = Some due"
  define u' where "u' = u\<lparr>borrowed := AList.delete ttl (borrowed u)\<rparr>"
  define bs' where "bs' = (case map_of (books lib) ttl of
         Some b \<Rightarrow> AList.update ttl (b\<lparr>quantity := quantity b + 1\<rparr>) (books lib)
       | None \<Rightarrow> AList.update ttl (Book_init ttl ''Unknown'' ''Unknown'' 1) (books lib))"
  define lib' where "lib' = lib\<lparr>books := bs', users := AList.update uid u' (users lib),
      transactions := transactions lib @ [Transaction_init utcnow uid ttl ''return'' None]\<rparr>"
  have run: "return_book utcnow lib uid ttl = (lib', True, ''Returned'')"
    using a by (simp add: return_book_def Let_def lib'_def u'_def bs'_def)
  have usr: "map_of (users lib') uid = Some u'" "borrowed u' = AList.delete ttl (borrowed u)"
      "map_of (borrowed u') ttl = None"
      "id' u' = id' u" "name u' = name u" "contact u' = contact u"
      "AList.delete uid (users lib') = AList.delete uid (users lib)"
      "map fst (users lib') = map fst (users lib)"
    using a by (simp_all add: lib'_def u'_def map_of_update_same delete_update_same
        keys_update_present delete_conv')
  have bk1: "\<forall>b. map_of (books lib) ttl = Some b \<longrightarrow>
              map_of (books lib') ttl =
                Some \<lparr>title = title b, author = author b, genre = genre b,
                      quantity = quantity b + 1, issued_count = issued_count b\<rparr>
              \<and> map fst (books lib') = map fst (books lib)"
    by (simp add: lib'_def bs'_def map_of_update_same keys_update_present)
  have bk2: "map_of (books lib) ttl = None \<longrightarrow>
              books lib' = books lib @
                [(ttl, \<lparr>title = ttl, author = ''Unknown'', genre = ''Unknown'',
                        quantity = 1, issued_count = 0\<rparr>)]"
    by (simp add: lib'_def bs'_def update_absent Book_init_def)
  have bk3: "AList.delete ttl (books lib') = AList.delete ttl (books lib)"
    by (simp add: lib'_def bs'_def delete_update_same split: option.splits)
  have tr: "transactions lib' = transactions lib @
             [\<lparr>user_id = uid, book_title = ttl, action = ''return'', date = datetime_isoformat utcnow\<rparr>]"
    by (simp add: lib'_def Transaction_init_def)
  show "?post u due"
    apply (rule exI[of _ lib'], rule exI[of _ u'])
    using run usr bk1 bk2 bk3 tr by simp
qed

theorem return_book_spec_witness:
  "map_of (users example_store) ''u9'' = None
   \<and> return_book example_clock example_store ''u9'' ''Dune'' = (example_store, False, ''User not found'')
   \<and> map_of (users example_store) ''u2'' =
       Some \<lparr>id' = ''u2'', name = ''Bob'', contact = ''bob@x'', borrowed = [(''Foo'', ''2024-01-31'')]\<rparr>
   \<and> map_of [(''Foo'', ''2024-01-31'')] ''Dune'' = None
   \<and> return_book example_clock example_store ''u2'' ''Dune'' =
       (example_store, False, ''User did not borrow this book'')
   \<and> map_of [(''Foo'', ''2024-01-31'')] ''Foo'' = Some ''2024-01-31''
   \<and> map_of (books example_store) ''Foo'' = None
   \<and> (\<exists>lib' u'.
         return_book example_clock example_store ''u2'' ''Foo'' = (lib', True, ''Returned'')
       \<and> map_of (users lib') ''u2'' = Some u' \<and> borrowed u' = []
       \<and> books lib' = books example_store @
            [(''Foo'', \<lparr>title = ''Foo'', author = ''Unknown'', genre = ''Unknown'',
                       quantity = 1, issued_count = 0\<rparr>)])
   \<and> map_of (borrowed \<lparr>id' = ''u1'', name = ''Ann'', contact = ''ann@x'',
           borrowed = [(''Emma'', ''2024-02-19''), (''Dune'', ''2024-02-20'')]\<rparr>) ''Emma'' = Some ''2024-02-19''
   \<and> (\<exists>lib' u'.
         return_book example_clock example_store ''u1'' ''Emma'' = (lib', True, ''Returned'')
       \<and> map_of (users lib') ''u1'' = Some u' \<and> borrowed u' = [(''Dune'', ''2024-02-20'')]
       \<and> map_of (books lib') ''Emma'' =
            Some \<lparr>title = ''Emma'', author = ''Austen'', genre = ''Novel'', quantity = 1, issued_count = 2\<rparr>)"
proof -
  let ?ann = "\<lparr>id' = ''u1'', name = ''Ann'', contact = ''ann@x'',
           borrowed = [(''Emma'', ''2024-02-19''), (''Dune'', ''2024-02-20'')]\<rparr>"
  let ?bob = "\<lparr>id' = ''u2'', name = ''Bob'', contact = ''bob@x'', borrowed = [(''Foo'', ''2024-01-31'')]\<rparr>"
  let ?emma = "\<lparr>title = ''Emma'', author = ''Austen'', genre = ''Novel'', quantity = 0, issued_count = 2\<rparr>"
  have u9: "map_of (users example_store) ''u9'' = None"
    and u2: "map_of (users example_store) ''u2'' = Some ?bob"
    and u1: "map_of (users example_store) ''u1'' = Some ?ann"
    and foo: "map_of (books example_store) ''Foo'' = None"
    and emma: "map_of (books example_store) ''Emma'' = Some ?emma"
    by (simp_all add: example_store_def)
  have b1: "map_of (borrowed ?bob) ''Dune'' = None"
    and b2: "map_of (borrowed ?bob) ''Foo'' = Some ''2024-01-31''"
    and b3: "map_of (borrowed ?ann) ''Emma'' = Some ''2024-02-19''"
    by simp_all
  have r1: "return_book example_clock example_store ''u9'' ''Dune'' = (example_store, False, ''User not found'')"
    using return_book_spec [of example_store "''u9''" example_clock "''Dune''"] u9 by blast
  have r2: "return_book example_clock example_store ''u2'' ''Dune'' =
       (example_store, False, ''User did not borrow this book'')"
    using return_book_spec [of example_store "''u2''" example_clock "''Dune''"] u2 b1 by blast
  obtain lib3 u3 where r3:
      "return_book example_clock example_store ''u2'' ''Foo'' = (lib3, True, ''Returned'')"
      "map_of (users lib3) ''u2'' = Some u3"
      "borrowed u3 = AList.delete ''Foo'' (borrowed ?bob)"
      "books lib3 = books example_store @
            [(''Foo'', \<lparr>title = ''Foo'', author = ''Unknown'', genre = ''Unknown'',
                       quantity = 1, issued_count = 0\<rparr>)]"
    using return_book_spec [of example_store "''u2''" example_clock "''Foo''"] u2 b2 foo by blast
  obtain lib4 u4 where r4:
      "return_book example_clock example_store ''u1'' ''Emma'' = (lib4, True, ''Returned'')"
      "map_of (users lib4) ''u1'' = Some u4"
      "borrowed u4 = AList.delete ''Emma'' (borrowed ?ann)"
      "map_of (books lib4) ''Emma'' =
         Some \<lparr>title = title ?emma, author = author ?emma, genre = genre ?emma,
               quantity = quantity ?emma + 1, issued_count = issued_count ?emma\<rparr>"
    using return_book_spec [of example_store "''u1''" example_clock "''Emma''"] u1 b3 emma by blast
  from r3 have r3': "\<exists>lib' u'.
         return_book example_clock example_store ''u2'' ''Foo'' = (lib', True, ''Returned'')
       \<and> map_of (users lib') ''u2'' = Some u' \<and> borrowed u' = []
       \<and> books lib' = books example_store @
            [(''Foo'', \<lparr>title = ''Foo'', author = ''Unknown'', genre = ''Unknown'',
                       quantity = 1, issued_count = 0\<rparr>)]"
    by simp
  from r4 have r4': "\<exists>lib' u'.
         return_book example_clock example_store ''u1'' ''Emma'' = (lib', True, ''Returned'')
       \<and> map_of (users lib') ''u1'' = Some u' \<and> borrowed u' = [(''Dune'', ''2024-02-20'')]
       \<and> map_of (books lib') ''Emma'' =
            Some \<lparr>title = ''Emma'', author = ''Austen'', genre = ''Novel'', quantity = 1, issued_count = 2\<rparr>"
    by simp
  from u9 u2 foo r1 r2 r3' r4' show ?thesis by simp
qed

subsection \<open>\<open>generate_report\<close>\<close>

lemma due_date_of_fails:
  "\<not> due_parses fi sp due \<Longrightarrow> due_date_of fi sp due = Inl ValueError"
  by (simp add: due_parses_def due_date_of_def)

lemma due_date_of_succeeds:
  "due_parses fi sp due \<Longrightarrow> \<exists>d. due_date_of fi sp due = Inr d"
  by (auto simp: due_parses_def due_date_of_def split: option.splits)

lemma overdue_of_user_eq:
  "overdue_of_user fi sp today u items acc =
     (if \<forall>p \<in> set items. due_parses fi sp (snd p)
      then Inr (acc @ map (\<lambda>p. overdue_entry u (fst p) (snd p))
                          (filter (\<lambda>p. is_overdue fi sp today (snd p)) items))
      else Inl ValueError)"
proof (induction items arbitrary: acc)
  case Nil
  then show ?case by simp
next
  case (Cons p items)
  obtain ttl due where p: "p = (ttl, due)" by (cases p)
  show ?case
  proof (cases "due_parses fi sp due")
    case False
    then show ?thesis by (auto simp: p due_date_of_fails)
  next
    case True
    then obtain d where "due_date_of fi sp due = Inr d"
      using due_date_of_succeeds by blast
    with True show ?thesis by (simp add: p Cons.IH is_overdue_def)
  qed
qed

lemma overdue_of_users_eq:
  "overdue_of_users fi sp today us acc =
     (if \<forall>u \<in> set us. \<forall>p \<in> set (borrowed u). due_parses fi sp (snd p)
      then Inr (acc @ concat (map (\<lambda>u. map (\<lambda>p. overdue_entry u (fst p) (snd p))
                          (filter (\<lambda>p. is_overdue fi sp today (snd p)) (borrowed u))) us))
      else Inl ValueError)"
proof (induction us arbitrary: acc)
  case Nil
  then show ?case by simp
next
  case (Cons u us)
  show ?case
  proof (cases "\<forall>p \<in> set (borrowed u). due_parses fi sp (snd p)")
    case True
    then show ?thesis by (simp add: overdue_of_user_eq Cons.IH)
  next
    case False
    then show ?thesis by (auto simp: overdue_of_user_eq)
  qed
qed

lemma generate_report_eq:
  "generate_report fi sp utcnow lib =
     (if dues_parse fi sp lib
      then Inr \<lparr>total_books = sum_list (map quantity (map snd (books lib))),
                unique_titles = length (books lib),
                total_users = length (users lib),
                popular = map Book_to_dict (take 10 (sorted_builtin issued_count True (map snd (books lib)))),
                overdue = overdue_spec fi sp (date.truncate utcnow) lib\<rparr>
      else Inl ValueError)"
  unfolding generate_report_def Let_def overdue_of_users_eq dues_parse_def overdue_spec_def
  by (simp add: case_prod_unfold)

lemma date_less_irrefl: "\<not> date_less d d"
  by (simp add: date_less_def)

lemma set_overdue_of_one:
  "e \<in> set (map (\<lambda>(ttl, due). overdue_entry u ttl due)
              (filter (\<lambda>(ttl, due). is_overdue fi sp today due) items)) \<longleftrightarrow>
     (\<exists>(ttl, due) \<in> set items.
         \<exists>d. due_date_of fi sp due = Inr d \<and> date_less d today \<and> e = overdue_entry u ttl due)"
  (is "?l \<longleftrightarrow> ?r")
proof -
  have ov: "is_overdue fi sp today due \<longleftrightarrow> (\<exists>d. due_date_of fi sp due = Inr d \<and> date_less d today)"
    for due
    by (cases "due_date_of fi sp due") (simp_all add: is_overdue_def)
  have "?l \<longleftrightarrow> (\<exists>p \<in> set items. is_overdue fi sp today (snd p) \<and> e = overdue_entry u (fst p) (snd p))"
    by (auto simp: case_prod_unfold)
  also have "\<dots> \<longleftrightarrow> ?r"
    unfolding ov case_prod_unfold by blast
  finally show ?thesis .
qed

lemma set_overdue_spec:
  "e \<in> set (overdue_spec fi sp today lib) \<longleftrightarrow>
     (\<exists>u \<in> set (map snd (users lib)). \<exists>(ttl, due) \<in> set (borrowed u).
         \<exists>d. due_date_of fi sp due = Inr d \<and> date_less d today \<and> e = overdue_entry u ttl due)"
proof -
  have "e \<in> set (overdue_spec fi sp today lib) \<longleftrightarrow>
      (\<exists>u \<in> set (map snd (users lib)).
         e \<in> set (map (\<lambda>(ttl, due). overdue_entry u ttl due)
              (filter (\<lambda>(ttl, due). is_overdue fi sp today due) (borrowed u))))"
    unfolding overdue_spec_def by (simp only: set_concat set_map UN_iff bex_simps)
  then show ?thesis by (simp only: set_overdue_of_one)
qed

text \<open>
  Claim C6. \<open>generate_report\<close> returns a report when every due date of the store is accepted
  by one of the two parsers (it raises \<open>ValueError\<close> otherwise). The overdue list of a report
  is the list \<open>overdue_spec\<close>: users in the order of the store and, for each, the entries of
  \<open>borrowed\<close> in their order, with nothing sorted. An entry is in the list if and only if it is
  the entry of a user and of a pair of that user's \<open>borrowed\<close> whose due date is before the date
  of the clock, the time of day being dropped on both sides. A due date equal to the date of
  the clock gives no entry.
\<close>

theorem generate_report_overdue:
  "(dues_parse fromisoformat strptime lib \<longrightarrow>
      (\<exists>r. generate_report fromisoformat strptime utcnow lib = Inr r))
   \<and> (\<forall>r. generate_report fromisoformat strptime utcnow lib = Inr r \<longrightarrow>
        overdue r = overdue_spec fromisoformat strptime (date.truncate utcnow) lib
      \<and> (\<forall>e. e \<in> set (overdue r) \<longleftrightarrow>
           (\<exists>u \<in> set (map snd (users lib)). \<exists>(ttl, due) \<in> set (borrowed u).
              \<exists>d. due_date_of fromisoformat strptime due = Inr d
                \<and> date_less d (date.truncate utcnow) \<and> e = overdue_entry u ttl due))
      \<and> (\<forall>u ttl due. due_date_of fromisoformat strptime due = Inr (date.truncate utcnow) \<longrightarrow>
            overdue_entry u ttl due \<notin> set (overdue r)))"
proof (intro conjI allI impI)
  assume "dues_parse fromisoformat strptime lib"
  then show "\<exists>r. generate_report fromisoformat strptime utcnow lib = Inr r"
    by (simp add: generate_report_eq)
next
  fix r assume r: "generate_report fromisoformat strptime utcnow lib = Inr r"
  then show eq: "overdue r = overdue_spec fromisoformat strptime (date.truncate utcnow) lib"
    by (auto simp: generate_report_eq split: if_splits)
  then show "e \<in> set (overdue r) \<longleftrightarrow>
           (\<exists>u \<in> set (map snd (users lib)). \<exists>(ttl, due) \<in> set (borrowed u).
              \<exists>d. due_date_of fromisoformat strptime due = Inr d
                \<and> date_less d (date.truncate utcnow) \<and> e = overdue_entry u ttl due)" for e
    by (simp only: set_overdue_spec)
  fix u ttl due
  assume today: "due_date_of fromisoformat strptime due = Inr (date.truncate utcnow)"
  show "overdue_entry u ttl due \<notin> set (overdue r)"
  proof
    assume "overdue_entry u ttl due \<in> set (overdue r)"
    then obtain u' ttl' due' d where "due_date_of fromisoformat strptime due' = Inr d"
        "date_less d (date.truncate utcnow)" "overdue_entry u ttl due = overdue_entry u' ttl' due'"
      unfolding eq set_overdue_spec by blast
    with today show False by (simp add: overdue_entry_def date_less_irrefl)
  qed
qed

theorem generate_report_overdue_witness:
  "dues_parse parse_ymd (\<lambda>s f. None) example_store
   \<and> due_date_of parse_ymd (\<lambda>s f. None) ''2024-02-20'' = Inr (date.truncate example_clock)
   \<and> (\<exists>r. generate_report parse_ymd (\<lambda>s f. None) example_clock example_store = Inr r
        \<and> overdue r =
            [JObj [(''user_id'', JStr ''u1''), (''name'', JStr ''Ann''),
                   (''book'', JStr ''Emma''), (''due'', JStr ''2024-02-19'')],
             JObj [(''user_id'', JStr ''u2''), (''name'', JStr ''Bob''),
                   (''book'', JStr ''Foo''), (''due'', JStr ''2024-01-31'')]]
        \<and> JObj [(''user_id'', JStr ''u1''), (''name'', JStr ''Ann''),
                 (''book'', JStr ''Dune''), (''due'', JStr ''2024-02-20'')] \<notin> set (overdue r))"
proof -
  let ?sp = "\<lambda>s f. None :: datetime option"
  have h: "dues_parse parse_ymd ?sp example_store"
    by (simp add: dues_parse_def due_parses_def example_store_def parse_ymd_19 parse_ymd_20 parse_ymd_31)
  have today: "due_date_of parse_ymd ?sp ''2024-02-20'' = Inr (date.truncate example_clock)"
    by (simp add: due_date_of_def parse_ymd_20 example_clock_def date.truncate_def)
  note spec = generate_report_overdue [of parse_ymd ?sp example_store example_clock]
  from spec h obtain r where
    r: "generate_report parse_ymd ?sp example_clock example_store = Inr r" by blast
  with spec have ov: "overdue r = overdue_spec parse_ymd ?sp (date.truncate example_clock) example_store"
    and no: "\<And>u ttl due. due_date_of parse_ymd ?sp due = Inr (date.truncate example_clock) \<Longrightarrow>
            overdue_entry u ttl due \<notin> set (overdue r)"
    by blast+
  have list: "overdue_spec parse_ymd ?sp (date.truncate example_clock) example_store =
            [JObj [(''user_id'', JStr ''u1''), (''name'', JStr ''Ann''),
                   (''book'', JStr ''Emma''), (''due'', JStr ''2024-02-19'')],
             JObj [(''user_id'', JStr ''u2''), (''name'', JStr ''Bob''),
                   (''book'', JStr ''Foo''), (''due'', JStr ''2024-01-31'')]]"
    by (simp add: overdue_spec_def is_overdue_def due_date_of_def example_store_def parse_ymd_19 parse_ymd_20 parse_ymd_31
        date_less_def example_clock_def date.truncate_def overdue_entry_def)
  from no [OF today, of "\<lparr>id' = ''u1'', name = ''Ann'', contact = ''ann@x'',
           borrowed = [(''Emma'', ''2024-02-19''), (''Dune'', ''2024-02-20'')]\<rparr>" "''Dune''"]
  have "JObj [(''user_id'', JStr ''u1''), (''name'', JStr ''Ann''),
                 (''book'', JStr ''Dune''), (''due'', JStr ''2024-02-20'')] \<notin> set (overdue r)"
    by (simp add: overdue_entry_def)
  with h today r ov list show ?thesis by simp
qed

lemma sorted_builtin_descending:
  "sorted_wrt (\<lambda>a b. key b \<le> key a) (sorted_builtin key True xs)"
proof -
  have "sorted (map key (sort_key key (rev xs)))" by (rule sorted_sort_key)
  then have "sorted_wrt (\<lambda>a b. key a \<le> key b) (sort_key key (rev xs))"
    by (simp add: sorted_wrt_map)
  then show ?thesis
    by (simp add: sorted_builtin_def sorted_wrt_rev)
qed

lemma sorted_builtin_stable:
  "filter (\<lambda>x. key x = k) (sorted_builtin key reverse xs) = filter (\<lambda>x. key x = k) xs"
  by (simp add: sorted_builtin_def sort_key_stable flip: rev_filter)

lemma mset_sorted_builtin: "mset (sorted_builtin key reverse xs) = mset xs"
  by (simp add: sorted_builtin_def)

lemma length_sorted_builtin: "length (sorted_builtin key reverse xs) = length xs"
  by (simp add: sorted_builtin_def)

text \<open>
  Claim C7. The popular list of a report has at most ten entries. It is \<open>to_dict\<close> of a list
  \<open>ps\<close> of books of the catalog such that: \<open>ps\<close> and the books left out make up the catalog, and
  no book left out has been issued more often than a book of \<open>ps\<close>; \<open>ps\<close> is in descending
  order of \<open>issued_count\<close>; the books of \<open>ps\<close> with a given \<open>issued_count\<close> are the first ones of
  the catalog with that count, in the order of the catalog; and with ten books or fewer in the
  catalog no book is left out.
\<close>

theorem generate_report_popular:
  "(dues_parse fromisoformat strptime lib \<longrightarrow>
      (\<exists>r. generate_report fromisoformat strptime utcnow lib = Inr r))
   \<and> (\<forall>r. generate_report fromisoformat strptime utcnow lib = Inr r \<longrightarrow>
        length (popular r) \<le> 10
      \<and> (\<exists>ps rest.
            popular r = map Book_to_dict ps
          \<and> mset (ps @ rest) = mset (map snd (books lib))
          \<and> (\<forall>a \<in> set ps. \<forall>b \<in> set rest. issued_count b \<le> issued_count a)
          \<and> sorted_wrt (\<lambda>a b. issued_count b \<le> issued_count a) ps
          \<and> (\<forall>k. prefix (filter (\<lambda>b. issued_count b = k) ps)
                         (filter (\<lambda>b. issued_count b = k) (map snd (books lib))))
          \<and> (length (books lib) \<le> 10 \<longrightarrow> rest = [])))"
proof (intro conjI allI impI)
  assume "dues_parse fromisoformat strptime lib"
  then show "\<exists>r. generate_report fromisoformat strptime utcnow lib = Inr r"
    by (simp add: generate_report_eq)
next
  fix r assume r: "generate_report fromisoformat strptime utcnow lib = Inr r"
  define s where "s = sorted_builtin issued_count True (map snd (books lib))"
  from r have pop: "popular r = map Book_to_dict (take 10 s)"
    by (auto simp: generate_report_eq s_def split: if_splits)
  then show "length (popular r) \<le> 10" by simp
  have desc: "sorted_wrt (\<lambda>a b. issued_count b \<le> issued_count a) (take 10 s @ drop 10 s)"
    by (simp add: s_def sorted_builtin_descending)
  have perm: "mset (take 10 s @ drop 10 s) = mset (map snd (books lib))"
    by (simp add: s_def mset_sorted_builtin)
  have stable: "prefix (filter (\<lambda>b. issued_count b = k) (take 10 s))
                         (filter (\<lambda>b. issued_count b = k) (map snd (books lib)))" for k
  proof -
    have "prefix (filter (\<lambda>b. issued_count b = k) (take 10 s)) (filter (\<lambda>b. issued_count b = k) s)"
      by (rule filter_mono_prefix) (rule take_is_prefix)
    then show ?thesis by (simp add: s_def sorted_builtin_stable)
  qed
  have all: "length (books lib) \<le> 10 \<longrightarrow> drop 10 s = []"
    by (simp add: s_def length_sorted_builtin)
  show "\<exists>ps rest.
            popular r = map Book_to_dict ps
          \<and> mset (ps @ rest) = mset (map snd (books lib))
          \<and> (\<forall>a \<in> set ps. \<forall>b \<in> set rest. issued_count b \<le> issued_count a)
          \<and> sorted_wrt (\<lambda>a b. issued_count b \<le> issued_count a) ps
          \<and> (\<forall>k. prefix (filter (\<lambda>b. issued_count b = k) ps)
                         (filter (\<lambda>b. issued_count b = k) (map snd (books lib))))
          \<and> (length (books lib) \<le> 10 \<longrightarrow> rest = [])"
    apply (rule exI[of _ "take 10 s"], rule exI[of _ "drop 10 s"])
    using pop desc perm stable all unfolding sorted_wrt_append by blast
qed

theorem generate_report_popular_witness:
  "dues_parse parse_ymd (\<lambda>s f. None) example_store
   \<and> length (books example_store) \<le> 10
   \<and> (\<exists>r ps. generate_report parse_ymd (\<lambda>s f. None) example_clock example_store = Inr r
        \<and> length (popular r) \<le> 10
        \<and> popular r = map Book_to_dict ps
        \<and> mset ps = mset (map snd (books example_store))
        \<and> sorted_wrt (\<lambda>a b. issued_count b \<le> issued_count a) ps)"
proof -
  let ?sp = "\<lambda>s f. None :: datetime option"
  have h: "dues_parse parse_ymd ?sp example_store"
    by (simp add: dues_parse_def due_parses_def example_store_def parse_ymd_19 parse_ymd_20 parse_ymd_31)
  have n: "length (books example_store) \<le> 10"
    by (simp add: example_store_def)
  note spec = generate_report_popular [of parse_ymd ?sp example_store example_clock]
  from spec h obtain r where
    r: "generate_report parse_ymd ?sp example_clock example_store = Inr r" by blast
  with spec n obtain ps where "length (popular r) \<le> 10" "popular r = map Book_to_dict ps"
      "mset (ps @ []) = mset (map snd (books example_store))"
      "sorted_wrt (\<lambda>a b. issued_count b \<le> issued_count a) ps"
    by blast
  with h n r show ?thesis by auto
qed

subsection \<open>\<open>save_to_file\<close> and \<open>load_from_file\<close>\<close>

lemma try_then_Inr [simp]: "try_then (Inr x) f = f x"
  by (simp add: try_then_def)

lemma try_then_Inl [simp]: "try_then (Inl e) f = Inl e"
  by (simp add: try_then_def)

lemma comprehension_map:
  "(\<And>i x. x \<in> set xs \<Longrightarrow> f i (g x) = Inr x) \<Longrightarrow> comprehension f i (map g xs) = Inr xs"
  by (induction xs arbitrary: i) simp_all

lemma Book_from_to_dict: "Book_from_dict (Book_to_dict b) = Inr b"
  by (simp add: Book_from_dict_def Book_to_dict_def Book_init_def)

lemma as_str_dict_borrowed:
  "as_str_dict (JObj (map (\<lambda>(ttl, due). (ttl, JStr due)) bw)) = Inr bw"
proof -
  have "comprehension (\<lambda>i (k, v). try_then (as_str v) (\<lambda>s. Inr (k, s))) 0
          (map (\<lambda>p. (fst p, JStr (snd p))) bw) = Inr bw"
    by (rule comprehension_map) simp
  then show ?thesis by (simp add: case_prod_unfold)
qed

lemma User_from_to_dict: "User_from_dict uuid4 (User_to_dict u) = Inr u"
  by (simp add: User_from_dict_def User_to_dict_def User_init_def as_str_dict_borrowed
      del: as_str_dict.simps)

lemma Transaction_from_to_dict:
  "date t \<noteq> [] \<Longrightarrow> Transaction_from_dict utcnow (Transaction_to_dict t) = Inr t"
  by (simp add: Transaction_from_dict_def Transaction_to_dict_def Transaction_init_def)

lemma load_saved:
  assumes "fs filename = Some (Document (save_data saved))" and "dates_nonempty saved"
  shows "load_from_file uuids clock fs lib filename = (saved, Inr True)"
proof -
  have bs: "comprehension (\<lambda>i (t, b). try_then (Book_from_dict b) (\<lambda>x. Inr (t, x))) 0
              (map (\<lambda>p. (fst p, Book_to_dict (snd p))) (books saved)) = Inr (books saved)"
    by (rule comprehension_map) (simp add: Book_from_to_dict)
  have us: "comprehension (\<lambda>i (uid, u). try_then (User_from_dict (uuids i) u) (\<lambda>x. Inr (uid, x))) 0
              (map (\<lambda>p. (fst p, User_to_dict (snd p))) (users saved)) = Inr (users saved)"
    by (rule comprehension_map) (simp add: User_from_to_dict)
  have ts: "comprehension (\<lambda>i t. Transaction_from_dict (clock i) t) 0
              (map Transaction_to_dict (transactions saved)) = Inr (transactions saved)"
    using assms(2) by (intro comprehension_map) (simp add: Transaction_from_to_dict dates_nonempty_def)
  show ?thesis
    using assms(1) bs us ts
    by (simp add: load_from_file_def save_data_def case_prod_unfold)
qed

text \<open>
  Claim C9. \<open>load_from_file\<close> of a file that does not exist raises nothing: it returns
  \<open>False\<close> and the store is the one of the call.
\<close>

theorem load_missing_file:
  "fs filename = None \<Longrightarrow> load_from_file uuids clock fs lib filename = (lib, Inr False)"
  by (simp add: load_from_file_def)

theorem load_missing_file_witness:
  "(Map.empty :: filesystem) ''library_data.json'' = None \<and>
   load_from_file (\<lambda>i. ''u0'') (\<lambda>i. example_clock) Map.empty example_store ''library_data.json''
     = (example_store, Inr False)"
  using load_missing_file [of Map.empty "''library_data.json''" "\<lambda>i. ''u0''" "\<lambda>i. example_clock" example_store]
  by simp

subsection \<open>Invariants of the sequences of calls\<close>

lemma in_set_update:
  "p \<in> set (AList.update k v al) \<Longrightarrow> p = (k, v) \<or> p \<in> set al"
  by (induction al) (auto split: if_splits)

lemma in_set_delete: "p \<in> set (AList.delete k al) \<Longrightarrow> p \<in> set al"
  by (simp add: AList.delete_eq)

lemma datetime_isoformat_nonempty: "datetime_isoformat dt \<noteq> []"
  by (simp add: datetime_isoformat_def date_isoformat_def pad4_def)

lemma Transaction_init_date: "date (Transaction_init utcnow uid ttl act dt) \<noteq> []"
  by (simp add: Transaction_init_def datetime_isoformat_nonempty split: option.splits)

lemma issue_book_cases:
  assumes "issue_book utcnow utcnow2 lib uid ttl = Inr (lib', r)"
  shows "lib' = lib \<or>
     (\<exists>u b due. map_of (users lib) uid = Some u \<and> map_of (books lib) ttl = Some b \<and> 0 < quantity b
        \<and> lib' = lib\<lparr>books := AList.update ttl (b\<lparr>quantity := quantity b - 1,
                                   issued_count := issued_count b + 1\<rparr>) (books lib),
                users := AList.update uid (u\<lparr>borrowed := AList.update ttl due (borrowed u)\<rparr>) (users lib),
                transactions := transactions lib @ [Transaction_init utcnow2 uid ttl ''issue'' None]\<rparr>)"
  using assms
  by (auto simp: issue_book_def Let_def split: option.splits if_splits sum.splits)

lemma return_book_cases:
  "fst (return_book utcnow lib uid ttl) = lib \<or>
     (\<exists>u. map_of (users lib) uid = Some u
        \<and> fst (return_book utcnow lib uid ttl) =
            lib\<lparr>books := (case map_of (books lib) ttl of
                   Some b \<Rightarrow> AList.update ttl (b\<lparr>quantity := quantity b + 1\<rparr>) (books lib)
                 | None \<Rightarrow> AList.update ttl (Book_init ttl ''Unknown'' ''Unknown'' 1) (books lib)),
                users := AList.update uid (u\<lparr>borrowed := AList.delete ttl (borrowed u)\<rparr>) (users lib),
                transactions := transactions lib @ [Transaction_init utcnow uid ttl ''return'' None]\<rparr>)"
  by (auto simp: return_book_def Let_def split: option.splits)

lemma quantities_nonneg_iff:
  "quantities_nonneg lib \<longleftrightarrow> (\<forall>t b. (t, b) \<in> set (books lib) \<longrightarrow> 0 \<le> quantity b)"
  by (auto simp: quantities_nonneg_def)

lemma keys_coherent_iff:
  "keys_coherent lib \<longleftrightarrow>
     (\<forall>t b. (t, b) \<in> set (books lib) \<longrightarrow> title b = t) \<and>
     (\<forall>k u. (k, u) \<in> set (users lib) \<longrightarrow> id' u = k)"
  by (auto simp: keys_coherent_def)

lemma perform_dates_nonempty:
  assumes "dates_nonempty lib" "\<not> file_call c"
  shows "dates_nonempty (fst (perform (lib, fs) c))"
proof (cases c)
  case (IssueBook utcnow utcnow2 uid ttl)
  show ?thesis
  proof (cases "issue_book utcnow utcnow2 lib uid ttl")
    case (Inl e)
    with assms IssueBook show ?thesis by simp
  next
    case (Inr p)
    obtain lib' r where p: "p = (lib', r)" by (cases p)
    from issue_book_cases [OF Inr [unfolded p]] assms(1) show ?thesis
      by (auto simp: IssueBook Inr p dates_nonempty_def Transaction_init_date)
  qed
next
  case (ReturnBook utcnow uid ttl)
  from return_book_cases [of utcnow lib uid ttl] assms(1) show ?thesis
    by (auto simp: ReturnBook dates_nonempty_def Transaction_init_date)
qed (use assms in \<open>auto simp: dates_nonempty_def add_book_def remove_book_def add_user_def
      remove_user_def Let_def split: option.splits\<close>)

lemma perform_quantities_nonneg:
  assumes "quantities_nonneg lib" "catalog_call c"
  shows "quantities_nonneg (fst (perform (lib, fs) c))"
proof (cases c)
  case (AddBook ttl auth gen qty)
  with assms show ?thesis
    by (auto simp: quantities_nonneg_iff add_book_def Book_init_def
        split: option.splits dest!: in_set_update map_of_SomeD)
next
  case (RemoveBook ttl)
  with assms show ?thesis
    by (auto simp: quantities_nonneg_iff remove_book_def split: option.splits dest!: in_set_delete)
next
  case (IssueBook utcnow utcnow2 uid ttl)
  show ?thesis
  proof (cases "issue_book utcnow utcnow2 lib uid ttl")
    case (Inl e)
    with assms IssueBook show ?thesis by simp
  next
    case (Inr p)
    obtain lib' r where p: "p = (lib', r)" by (cases p)
    from issue_book_cases [OF Inr [unfolded p]] assms(1) show ?thesis
      by (auto simp: IssueBook Inr p quantities_nonneg_iff dest!: in_set_update)
  qed
next
  case (ReturnBook utcnow uid ttl)
  from return_book_cases [of utcnow lib uid ttl] assms(1) show ?thesis
    by (auto simp: ReturnBook quantities_nonneg_iff Book_init_def
        split: option.splits dest!: in_set_update map_of_SomeD)
qed (use assms in \<open>auto simp: quantities_nonneg_iff add_user_def remove_user_def Let_def
      split: option.splits\<close>)

lemma perform_keys_coherent:
  assumes "keys_coherent lib" "\<not> file_call c"
  shows "keys_coherent (fst (perform (lib, fs) c))"
proof (cases c)
  case (AddBook ttl auth gen qty)
  with assms show ?thesis
    by (auto simp: keys_coherent_iff add_book_def Book_init_def
        split: option.splits dest!: in_set_update map_of_SomeD)
next
  case (RemoveBook ttl)
  with assms show ?thesis
    by (auto simp: keys_coherent_iff remove_book_def split: option.splits dest!: in_set_delete)
next
  case (AddUser uuid4 nm con)
  with assms show ?thesis
    by (auto simp: keys_coherent_iff add_user_def User_init_def Let_def dest!: in_set_update)
next
  case (RemoveUser uid)
  with assms show ?thesis
    by (auto simp: keys_coherent_iff remove_user_def split: option.splits dest!: in_set_delete)
next
  case (IssueBook utcnow utcnow2 uid ttl)
  show ?thesis
  proof (cases "issue_book utcnow utcnow2 lib uid ttl")
    case (Inl e)
    with assms IssueBook show ?thesis by simp
  next
    case (Inr p)
    obtain lib' r where p: "p = (lib', r)" by (cases p)
    from issue_book_cases [OF Inr [unfolded p]] assms(1) show ?thesis
      by (auto simp: IssueBook Inr p keys_coherent_iff dest!: in_set_update map_of_SomeD)
  qed
next
  case (ReturnBook utcnow uid ttl)
  from return_book_cases [of utcnow lib uid ttl] assms(1) show ?thesis
    by (auto simp: ReturnBook keys_coherent_iff Book_init_def
        split: option.splits dest!: in_set_update map_of_SomeD)
qed (use assms in auto)

lemma perform_snd_catalog: "\<not> file_call c \<Longrightarrow> snd (perform (lib, fs) c) = fs"
  by (cases c) (auto split: sum.splits)

lemma perform_invariant:
  assumes P: "P lib" and d: "dates_nonempty lib" and f: "files_saved P fs"
      and step: "\<not> file_call c \<Longrightarrow> P (fst (perform (lib, fs) c))"
  shows "P (fst (perform (lib, fs) c)) \<and> dates_nonempty (fst (perform (lib, fs) c))
         \<and> files_saved P (snd (perform (lib, fs) c))"
proof (cases c)
  case (Save sto max_str_digits filename)
  with P d f show ?thesis
    by (cases sto) (auto simp: save_to_file_def files_saved_def)
next
  case (Load uuids clock filename)
  show ?thesis
  proof (cases "fs filename")
    case None
    with P d f Load show ?thesis by (simp add: load_from_file_def)
  next
    case (Some content)
    with f consider "content = Malformed"
      | saved where "content = Document (save_data saved)" "P saved" "dates_nonempty saved"
      unfolding files_saved_def by blast
    then show ?thesis
    proof cases
      case 1
      with Some P d f Load show ?thesis by (simp add: load_from_file_def)
    next
      case 2
      with Some have "load_from_file uuids clock fs lib filename = (saved, Inr True)"
        by (simp add: load_saved)
      with 2 f Load show ?thesis by simp
    qed
  qed
qed (use assms in \<open>simp_all add: perform_snd_catalog perform_dates_nonempty
       del: perform.simps\<close>)

lemma foldl_perform_invariant:
  assumes "\<And>lib fs c. P lib \<Longrightarrow> c \<in> set calls \<Longrightarrow> \<not> file_call c \<Longrightarrow> P (fst (perform (lib, fs) c))"
      and "P (fst s)" "dates_nonempty (fst s)" "files_saved P (snd s)"
  shows "P (fst (foldl perform s calls))"
  using assms
proof (induction calls arbitrary: s)
  case Nil
  then show ?case by simp
next
  case (Cons c calls)
  obtain lib fs where s: "s = (lib, fs)" by (cases s)
  have step: "\<not> file_call c \<Longrightarrow> P (fst (perform (lib, fs) c))"
    using Cons.prems(1) [of lib c fs] Cons.prems(2) by (simp add: s)
  have inv: "P (fst (perform (lib, fs) c)) \<and> dates_nonempty (fst (perform (lib, fs) c))
         \<and> files_saved P (snd (perform (lib, fs) c))"
    using Cons.prems(2-4) step unfolding s fst_conv snd_conv by (rule perform_invariant)
  have "P (fst (foldl perform (perform (lib, fs) c) calls))"
  proof (rule Cons.IH)
    show "P (fst (perform (l, f) c'))" if "P l" "c' \<in> set calls" "\<not> file_call c'" for l f c'
      using that Cons.prems(1) [of l c' f] by simp
  qed (use inv in simp_all)
  then show ?case by (simp add: s)
qed

lemma run_invariant:
  assumes "\<And>lib fs c. P lib \<Longrightarrow> c \<in> set calls \<Longrightarrow> \<not> file_call c \<Longrightarrow> P (fst (perform (lib, fs) c))"
      and "P Library_init"
  shows "P (fst (run calls))"
  unfolding run_def
proof (rule foldl_perform_invariant [where P = P])
  show "P (fst (perform (l, f) c))" if "P l" "c \<in> set calls" "\<not> file_call c" for l f c
    using that assms(1) by simp
qed (use assms(2) in \<open>simp_all add: dates_nonempty_def files_saved_def Library_init_def\<close>)

text \<open>The association lists of every store that a sequence of calls reaches are dicts.\<close>

lemma keys_distinct_iff:
  "keys_distinct lib \<longleftrightarrow>
     distinct (map fst (books lib)) \<and> distinct (map fst (users lib)) \<and>
     (\<forall>k u. (k, u) \<in> set (users lib) \<longrightarrow> distinct (map fst (borrowed u)))"
  by (auto simp: keys_distinct_def)

lemma perform_keys_distinct:
  assumes "keys_distinct lib" "\<not> file_call c"
  shows "keys_distinct (fst (perform (lib, fs) c))"
proof (cases c)
  case (AddBook ttl auth gen qty)
  with assms show ?thesis
    by (auto simp: keys_distinct_iff add_book_def distinct_update split: option.splits)
next
  case (RemoveBook ttl)
  with assms show ?thesis
    by (auto simp: keys_distinct_iff remove_book_def distinct_delete split: option.splits)
next
  case (AddUser uuid4 nm con)
  with assms show ?thesis
    by (auto simp: keys_distinct_iff add_user_def User_init_def Let_def distinct_update
        dest!: in_set_update)
next
  case (RemoveUser uid)
  with assms show ?thesis
    by (auto simp: keys_distinct_iff remove_user_def distinct_delete
        split: option.splits dest!: in_set_delete)
next
  case (IssueBook utcnow utcnow2 uid ttl)
  show ?thesis
  proof (cases "issue_book utcnow utcnow2 lib uid ttl")
    case (Inl e)
    with assms IssueBook show ?thesis by simp
  next
    case (Inr p)
    obtain lib' r where p: "p = (lib', r)" by (cases p)
    from issue_book_cases [OF Inr [unfolded p]] assms(1) show ?thesis
      by (auto simp: IssueBook Inr p keys_distinct_iff distinct_update
          dest!: in_set_update map_of_SomeD)
  qed
next
  case (ReturnBook utcnow uid ttl)
  from return_book_cases [of utcnow lib uid ttl] assms(1) show ?thesis
    by (auto simp: ReturnBook keys_distinct_iff distinct_update distinct_delete
        split: option.splits dest!: in_set_update map_of_SomeD)
qed (use assms in auto)

lemma run_keys_distinct: "keys_distinct (fst (run calls))"
proof (rule run_invariant [where P = keys_distinct])
  show "keys_distinct Library_init"
    by (simp add: keys_distinct_def Library_init_def)
next
  fix lib fs c assume "keys_distinct lib" "\<not> file_call c"
  then show "keys_distinct (fst (perform (lib, fs) c))"
    by (rule perform_keys_distinct)
qed

lemma catalog_not_file: "catalog_call c \<Longrightarrow> \<not> file_call c"
  by (cases c) simp_all

text \<open>
  Claim C5. After any sequence of calls of \<open>add_book\<close> with a non-negative quantity,
  \<open>remove_book\<close>, \<open>add_user\<close>, \<open>remove_user\<close>, \<open>issue_book\<close> and \<open>return_book\<close> on the empty
  store, the quantity of every book of the catalog is non-negative.
\<close>

theorem quantity_never_negative:
  assumes "\<forall>c \<in> set calls. catalog_call c"
  shows "\<forall>(t, b) \<in> set (books (fst (run calls))). 0 \<le> quantity b"
proof -
  have "quantities_nonneg (fst (run calls))"
  proof (rule run_invariant [where P = quantities_nonneg])
    show "quantities_nonneg Library_init"
      by (simp add: quantities_nonneg_def Library_init_def)
  next
    fix lib fs c assume "quantities_nonneg lib" "c \<in> set calls"
    with assms show "quantities_nonneg (fst (perform (lib, fs) c))"
      by (simp add: perform_quantities_nonneg)
  qed
  then show ?thesis by (simp add: quantities_nonneg_def)
qed

theorem quantity_never_negative_witness:
  "list_all catalog_call example_calls
   \<and> map (\<lambda>(t, b). (t, quantity b)) (books (fst (run example_calls))) = [(''Dune'', 1)]
   \<and> list_all (\<lambda>(t, b). 0 \<le> quantity b) (books (fst (run example_calls)))"
proof -
  have h: "\<forall>c \<in> set example_calls. catalog_call c"
    by (simp add: example_calls_def)
  from quantity_never_negative [OF h] h show ?thesis
    by (simp add: run_example_calls list_all_iff)
qed

text \<open>
  Claim C10. After any sequence of calls of \<open>add_book\<close>, \<open>remove_book\<close>, \<open>add_user\<close>,
  \<open>remove_user\<close>, \<open>issue_book\<close>, \<open>return_book\<close>, \<open>save_to_file\<close> and \<open>load_from_file\<close> that
  starts with the empty store and no file (so that a file loaded is one that a call of the
  sequence saved), every key of \<open>books\<close> is the title of its record and every key of \<open>users\<close>
  is the id of its record.
\<close>

theorem keys_stay_coherent:
  "(\<forall>(t, b) \<in> set (books (fst (run calls))). title b = t) \<and>
   (\<forall>(k, u) \<in> set (users (fst (run calls))). id' u = k)"
proof -
  have "keys_coherent (fst (run calls))"
  proof (rule run_invariant [where P = keys_coherent])
    show "keys_coherent Library_init"
      by (simp add: keys_coherent_def Library_init_def)
  next
    fix lib fs c assume "keys_coherent lib" "\<not> file_call c"
    then show "keys_coherent (fst (perform (lib, fs) c))"
      by (rule perform_keys_coherent)
  qed
  then show ?thesis by (simp add: keys_coherent_def)
qed

theorem keys_stay_coherent_witness:
  "map fst (books (fst (run example_file_calls))) = [''Dune'']
   \<and> map fst (users (fst (run example_file_calls))) = [''u1'']
   \<and> list_all (\<lambda>(t, b). title b = t) (books (fst (run example_file_calls)))
   \<and> list_all (\<lambda>(k, u). id' u = k) (users (fst (run example_file_calls)))"
  using keys_stay_coherent [of example_file_calls]
  by (simp add: run_example_file_calls list_all_iff)

subsection \<open>The round trip of \<open>save_to_file\<close> and \<open>load_from_file\<close>\<close>










end
